theory Spec2Isabelle
  imports Main "HOL-Library.Word"
begin

section \<open>The image puller of lib/imagec/imagec.go\<close>

text \<open>
  A shallow embedding of \<^verbatim>\<open>lib/imagec/imagec.go\<close>. Go structs are records, an embedded
  struct is a record extension, a pointer that may be nil is an option, a \<^verbatim>\<open>(T, error)\<close>
  result is a sum with the error on the left, and a method that mutates its receiver
  returns the receiver's new value next to its \<^verbatim>\<open>error\<close>. Logging, tracing and progress
  messages are left out: nothing returned or stored depends on them.
\<close>

subsection \<open>Errors\<close>

text \<open>
  \<^verbatim>\<open>Error msg\<close> is an error value with the message \<^verbatim>\<open>msg\<close> (what \<^verbatim>\<open>fmt.Errorf\<close> builds);
  the two typed errors are the ones \<^verbatim>\<open>PullImage\<close> switches on; \<^verbatim>\<open>Panic\<close> is a run-time
  panic (index out of range, nil dereference), which unwinds instead of returning.
\<close>

datatype error =
    Error string
  | ImageNotFoundError string
  | TagNotFoundError string
  | Panic string

fun err_Error :: "error \<Rightarrow> string" where
  "err_Error (Error m) = m"
| "err_Error (ImageNotFoundError m) = m"
| "err_Error (TagNotFoundError m) = m"
| "err_Error (Panic m) = m"

subsection \<open>Manifests and options\<close>

text \<open>
  The schema-1 manifest. Its types are declared in another file of the package; the
  fields here are the ones this file reads: the name, the FS layers with their blob
  sums, and the history entries with their \<^verbatim>\<open>V1Compatibility\<close> documents.
\<close>

record FSLayer =
  BlobSum :: string

record ManifestHistory =
  V1Compatibility :: string

record Manifest =
  Name :: string
  FSLayers :: "FSLayer list"
  History :: "ManifestHistory list"

text \<open>Of a schema-2 manifest only its presence matters here; its payload is kept opaque.\<close>

record DeserializedManifest =
  Payload :: string

text \<open>
  \<^verbatim>\<open>Options\<close>, without the output stream and the certificate pool; the token is kept as
  its text and the timeout as a number.
\<close>

record Options =
  Reference :: string
  Registry :: string
  Image :: string
  Tag :: string
  Destination :: string
  Host :: string
  Storename :: string
  Username :: string
  Password :: string
  Token :: "string option"
  Timeout :: int
  InsecureSkipVerify :: bool
  InsecureAllowHTTP :: bool
  ImageManifestSchema1 :: "Manifest option"
  ImageManifestSchema2 :: "DeserializedManifest option"
  ManifestDigest :: string

text \<open>
  \<^verbatim>\<open>ImageWithMeta\<close>: the embedded \<^verbatim>\<open>*models.Image\<close> contributes \<^verbatim>\<open>ID\<close>, \<^verbatim>\<open>Parent\<close> and
  \<^verbatim>\<open>Store\<close>; \<^verbatim>\<open>Size\<close> is an \<^verbatim>\<open>int64\<close>.
\<close>

record ImageWithMeta =
  ID :: string
  Parent :: string
  Store :: string
  DiffID :: string
  Layer :: FSLayer
  Meta :: string
  Size :: "64 word"
  Downloading :: bool

text \<open>
  \<^verbatim>\<open>ImageC\<close> embeds \<^verbatim>\<open>Options\<close>. A slot of \<^verbatim>\<open>ImageLayers\<close> is a pointer: \<^verbatim>\<open>None\<close> is nil.
\<close>

record ImageC = Options +
  ImageLayers :: "ImageWithMeta option list"
  ImageID :: string

definition DefaultDockerURL :: string where
  "DefaultDockerURL = ''registry-1.docker.io''"

subsection \<open>References\<close>

text \<open>
  A value of the interface \<^verbatim>\<open>reference.Named\<close> of docker's reference package, as the
  results of its methods: \<^verbatim>\<open>Name()\<close>, \<^verbatim>\<open>String()\<close>, \<^verbatim>\<open>Hostname()\<close>, \<^verbatim>\<open>RemoteName()\<close>;
  \<^verbatim>\<open>TagOf\<close> is \<^verbatim>\<open>Some t\<close> exactly when the value is a \<^verbatim>\<open>NamedTagged\<close> with \<^verbatim>\<open>Tag() = t\<close>,
  \<^verbatim>\<open>DigestOf\<close> is \<^verbatim>\<open>Some d\<close> exactly when it is a \<^verbatim>\<open>Canonical\<close> with digest \<^verbatim>\<open>d\<close>.
  The parser \<^verbatim>\<open>reference.ParseNamed\<close> belongs to that package and is a parameter
  of every function that calls it.
\<close>

record Named =
  RefName :: string
  RefString :: string
  Hostname :: string
  RemoteName :: string
  TagOf :: "string option"
  DigestOf :: "string option"

type_synonym parser = "string \<Rightarrow> error + Named"

text \<open>The constants \<^verbatim>\<open>reference.DefaultTag\<close> and \<^verbatim>\<open>reference.DefaultHostname\<close>.\<close>

definition DefaultTag :: string where
  "DefaultTag = ''latest''"

definition DefaultHostname :: string where
  "DefaultHostname = ''docker.io''"

text \<open>\<^verbatim>\<open>reference.IsNameOnly\<close>: neither a tag nor a digest.\<close>

definition IsNameOnly :: "Named \<Rightarrow> bool" where
  "IsNameOnly ref = (TagOf ref = None \<and> DigestOf ref = None)"

subsection \<open>ParseReference\<close>

definition ParseReference :: "parser \<Rightarrow> ImageC \<Rightarrow> error option \<times> ImageC" where
  "ParseReference ParseNamed ic =
     (case ParseNamed (Reference ic) of
        Inl err \<Rightarrow> (Some err, ic)
      | Inr ref \<Rightarrow>
          let ic1 = ic\<lparr>Tag := DefaultTag\<rparr>;
              ic2 = (if \<not> IsNameOnly ref
                     then (case TagOf ref of Some t \<Rightarrow> ic1\<lparr>Tag := t\<rparr> | None \<Rightarrow> ic1)
                     else ic1);
              ic3 = ic2\<lparr>Registry := DefaultDockerURL\<rparr>;
              ic4 = (if Hostname ref \<noteq> DefaultHostname
                     then ic3\<lparr>Registry := Hostname ref\<rparr>
                     else ic3);
              ic5 = ic4\<lparr>Image := RemoteName ref\<rparr>
          in (None, ic5))"

text \<open>
  The parsed forms of the two references of the scenarios, as docker's reference package
  returns them: the bare name \<^verbatim>\<open>busybox\<close> has the default host and the \<^verbatim>\<open>library/\<close>
  prefix in its remote name; the second has its own host and a tag.
\<close>

definition busybox_ref :: Named where
  "busybox_ref = \<lparr>RefName = ''busybox'', RefString = ''busybox'',
     Hostname = ''docker.io'', RemoteName = ''library/busybox'',
     TagOf = None, DigestOf = None\<rparr>"

definition myregistry_ref :: Named where
  "myregistry_ref = \<lparr>RefName = ''myregistry.example.com:5000/app'',
     RefString = ''myregistry.example.com:5000/app:v2'',
     Hostname = ''myregistry.example.com:5000'', RemoteName = ''app'',
     TagOf = Some ''v2'', DigestOf = None\<rparr>"

text \<open>A parser that knows these two references and rejects every other string.\<close>

definition scenario_parser :: parser where
  "scenario_parser s =
     (if s = ''busybox'' then Inr busybox_ref
      else if s = ''myregistry.example.com:5000/app:v2'' then Inr myregistry_ref
      else Inl (Error ''invalid reference format''))"

text \<open>An \<^verbatim>\<open>ImageC\<close> with every field at its zero value but the reference.\<close>

definition new_ImageC :: "string \<Rightarrow> ImageC" where
  "new_ImageC r = \<lparr>Reference = r, Registry = [], Image = [], Tag = [],
     Destination = [], Host = [], Storename = [], Username = [], Password = [],
     Token = None, Timeout = 0, InsecureSkipVerify = False, InsecureAllowHTTP = False,
     ImageManifestSchema1 = None, ImageManifestSchema2 = None, ManifestDigest = [],
     ImageLayers = [], ImageID = []\<rparr>"

subsection \<open>The per-layer configuration document\<close>

text \<open>
  \<^verbatim>\<open>docker.V1Image\<close>, the struct a history entry's \<^verbatim>\<open>V1Compatibility\<close> document is decoded
  into. Of \<^verbatim>\<open>container.Config\<close> the source reads \<^verbatim>\<open>Cmd\<close> only; the other fields are kept
  together as \<^verbatim>\<open>ConfigRest\<close>. \<^verbatim>\<open>Created\<close> is a time, kept as its text.
\<close>

record container_Config =
  Cmd :: "string list"
  ConfigRest :: string

record V1Image =
  v1_ID :: string
  v1_Parent :: string
  v1_Comment :: string
  v1_Created :: string
  v1_Container :: string
  v1_ContainerConfig :: container_Config
  v1_DockerVersion :: string
  v1_Author :: string
  v1_Config :: "container_Config option"
  v1_Architecture :: string
  v1_OS :: string
  v1_Size :: "64 word"

text \<open>The zero value \<^verbatim>\<open>docker.V1Image{}\<close>.\<close>

definition V1Image_zero :: V1Image where
  "V1Image_zero = \<lparr>v1_ID = [], v1_Parent = [], v1_Comment = [], v1_Created = [],
     v1_Container = [], v1_ContainerConfig = \<lparr>Cmd = [], ConfigRest = []\<rparr>,
     v1_DockerVersion = [], v1_Author = [], v1_Config = None, v1_Architecture = [],
     v1_OS = [], v1_Size = 0\<rparr>"

text \<open>
  \<^verbatim>\<open>json.Unmarshal([]byte(doc), &v)\<close> of the standard library, a parameter: from the
  document and the struct's value before the call to an error or the struct's value
  after it. The struct is passed in because the source decodes every document of a loop
  into one variable, and a key the document lacks leaves its field as it was.
\<close>

type_synonym unmarshal = "string \<Rightarrow> V1Image \<Rightarrow> error + V1Image"

text \<open>
  Decoding documents one after the other into the same variable, failing at the first
  that fails.
\<close>

fun unmarshal_all :: "unmarshal \<Rightarrow> string list \<Rightarrow> V1Image \<Rightarrow> error + V1Image" where
  "unmarshal_all U [] v = Inr v"
| "unmarshal_all U (d # ds) v =
     (case U d v of Inl err \<Rightarrow> Inl err | Inr v' \<Rightarrow> unmarshal_all U ds v')"

subsection \<open>LayersToDownload\<close>

text \<open>The layer cache \<^verbatim>\<open>LayerCache()\<close>, read by \<^verbatim>\<open>Get\<close>: \<^verbatim>\<open>None\<close> is a lookup error.\<close>

type_synonym layer_cache = "string \<rightharpoonup> ImageWithMeta"

text \<open>
  The struct literal of the loop body: the record for the decoded \<^verbatim>\<open>v1\<close>, the history
  entry and the FS layer of one index. Fields the literal leaves out are zero.
\<close>

definition new_ImageWithMeta :: "string \<Rightarrow> V1Image \<Rightarrow> ManifestHistory \<Rightarrow> FSLayer \<Rightarrow> ImageWithMeta" where
  "new_ImageWithMeta storename v1 history layer =
     (let parent = (if v1_Parent v1 \<noteq> [] then v1_Parent v1 else ''scratch'')
      in \<lparr>ID = v1_ID v1, Parent = parent, Store = storename, DiffID = [],
          Layer = layer, Meta = V1Compatibility history, Size = 0, Downloading = False\<rparr>)"

text \<open>
  The loop \<^verbatim>\<open>for i := len(History) - 1; i >= 0; i--\<close>: the counter \<^verbatim>\<open>Suc i\<close> stands for
  the iteration at index \<^verbatim>\<open>i\<close>, the counter \<^verbatim>\<open>0\<close> for the loop's exit. Reading
  \<^verbatim>\<open>History[i]\<close> or \<^verbatim>\<open>FSLayers[i]\<close> out of range panics.
\<close>

fun layers_loop :: "unmarshal \<Rightarrow> layer_cache \<Rightarrow> string \<Rightarrow> Manifest \<Rightarrow> nat \<Rightarrow> V1Image \<Rightarrow>
    ImageWithMeta option list \<Rightarrow> error + ImageWithMeta option list" where
  "layers_loop U cache storename manifest 0 v1 images = Inr images"
| "layers_loop U cache storename manifest (Suc i) v1 images =
     (if length (History manifest) \<le> i then Inl (Panic ''index out of range'')
      else if length (FSLayers manifest) \<le> i then Inl (Panic ''index out of range'')
      else
        let history = History manifest ! i;
            layer = FSLayers manifest ! i
        in case U (V1Compatibility history) v1 of
             Inl err \<Rightarrow> Inl (Error (''Failed to unmarshall image history: '' @ err_Error err))
           | Inr v1' \<Rightarrow>
               let fresh = new_ImageWithMeta storename v1' history layer;
                   images1 = images[i := Some fresh];
                   images2 = (case cache (ID fresh) of
                                Some cached \<Rightarrow>
                                  if \<not> Downloading cached then images1[i := Some cached]
                                  else images1
                              | None \<Rightarrow> images1)
               in layers_loop U cache storename manifest i v1' images2)"

definition LayersToDownload :: "unmarshal \<Rightarrow> layer_cache \<Rightarrow> ImageC \<Rightarrow>
    error + ImageWithMeta option list" where
  "LayersToDownload U cache ic =
     (case ImageManifestSchema1 ic of
        None \<Rightarrow> Inl (Panic ''nil pointer dereference'')
      | Some manifest \<Rightarrow>
          layers_loop U cache (Storename ic) manifest (length (History manifest))
            V1Image_zero (replicate (length (FSLayers manifest)) None))"

text \<open>
  Names for stating what the loop computes. \<^verbatim>\<open>v1_at U m i\<close> is the value of the
  loop's variable \<^verbatim>\<open>v1\<close> after the iteration at index \<^verbatim>\<open>i\<close>: the documents of the entries
  from the last down to \<^verbatim>\<open>i\<close>, decoded in this order into the zero value.
  \<^verbatim>\<open>own_v1 U m i\<close> is the entry at index \<^verbatim>\<open>i\<close> decoded on its own, into a zero value:
  its id and parent are the ones the manifest gives at this index.
  \<^verbatim>\<open>carries_own U m i\<close>: what the loop decodes at index \<^verbatim>\<open>i\<close> has the entry's own id and
  parent; it can fail only for an entry that leaves out a key an older entry has set,
  since \<^verbatim>\<open>v1\<close> is declared once, before the loop.
  \<^verbatim>\<open>accepted cache fresh\<close> is the record the body leaves at its index.
\<close>

definition v1_at :: "unmarshal \<Rightarrow> Manifest \<Rightarrow> nat \<Rightarrow> error + V1Image" where
  "v1_at U m i = unmarshal_all U (rev (map V1Compatibility (drop i (History m)))) V1Image_zero"

definition own_v1 :: "unmarshal \<Rightarrow> Manifest \<Rightarrow> nat \<Rightarrow> error + V1Image" where
  "own_v1 U m i = U (V1Compatibility (History m ! i)) V1Image_zero"

definition carries_own :: "unmarshal \<Rightarrow> Manifest \<Rightarrow> nat \<Rightarrow> bool" where
  "carries_own U m i =
     (case v1_at U m i of
        Inl err \<Rightarrow> False
      | Inr v \<Rightarrow>
          (case own_v1 U m i of
             Inl err \<Rightarrow> False
           | Inr w \<Rightarrow> v1_ID v = v1_ID w \<and> v1_Parent v = v1_Parent w))"

definition accepted :: "layer_cache \<Rightarrow> ImageWithMeta \<Rightarrow> ImageWithMeta" where
  "accepted cache fresh =
     (case cache (ID fresh) of
        Some cached \<Rightarrow> if \<not> Downloading cached then cached else fresh
      | None \<Rightarrow> fresh)"

text \<open>
  The parent chain of the spec, followed by id: from a record, one hop leads to the
  sentinel \<^verbatim>\<open>scratch\<close>, or to the records of the list whose id is the record's parent.
  \<^verbatim>\<open>reaches_scratch recs n r\<close>: within \<^verbatim>\<open>n\<close> hops the chain of \<^verbatim>\<open>r\<close> arrives at the
  sentinel, whichever record of that id it goes through. A parent that is no record's
  id, and a chain that comes back to a record it has passed, never arrive.
\<close>

fun reaches_scratch :: "ImageWithMeta list \<Rightarrow> nat \<Rightarrow> ImageWithMeta \<Rightarrow> bool" where
  "reaches_scratch recs 0 r = False"
| "reaches_scratch recs (Suc n) r =
     (Parent r = ''scratch'' \<or>
      (list_ex (\<lambda>r'. ID r' = Parent r) recs \<and>
       list_all (\<lambda>r'. ID r' \<noteq> Parent r \<or> reaches_scratch recs n r') recs))"

text \<open>The records of a result, its nil slots left out.\<close>

definition records :: "ImageWithMeta option list \<Rightarrow> ImageWithMeta list" where
  "records images = List.map_filter id images"

text \<open>
  Documents for the examples, and \<^verbatim>\<open>json.Unmarshal\<close> on them: a key that is present
  sets its field, every other field is left as it was, and text that is not JSON is an
  error.
\<close>

definition doc_self :: string where
  \<open>doc_self = ''{"id":"a","parent":"a"}''\<close>

definition doc_a :: string where
  \<open>doc_a = ''{"id":"a"}''\<close>

definition doc_base :: string where
  \<open>doc_base = ''{"id":"base","container_config":{"Cmd":["/bin/sh","-c","#(nop) ADD file in /"]}}''\<close>

definition doc_top :: string where
  \<open>doc_top = ''{"id":"top","parent":"base","container_config":{"Cmd":["/bin/sh","-c","#(nop) CMD [sh]"]}}''\<close>

definition example_Unmarshal :: unmarshal where
  "example_Unmarshal d v =
     (if d = doc_self then Inr (v\<lparr>v1_ID := ''a'', v1_Parent := ''a''\<rparr>)
      else if d = doc_base then
        Inr (v\<lparr>v1_ID := ''base'',
               v1_ContainerConfig := (v1_ContainerConfig v)
                 \<lparr>Cmd := [''/bin/sh'', ''-c'', ''#(nop) ADD file in /'']\<rparr>\<rparr>)
      else if d = doc_top then
        Inr (v\<lparr>v1_ID := ''top'', v1_Parent := ''base'',
               v1_ContainerConfig := (v1_ContainerConfig v)
                 \<lparr>Cmd := [''/bin/sh'', ''-c'', ''#(nop) CMD [sh]'']\<rparr>\<rparr>)
      else if d = doc_a then Inr (v\<lparr>v1_ID := ''a''\<rparr>)
      else Inl (Error ''invalid character looking for beginning of value''))"

subsection \<open>Examples for LayersToDownload\<close>

text \<open>
  The id the manifest gives in a history entry (the empty string when the entry does
  not decode).
\<close>

definition entry_id :: "unmarshal \<Rightarrow> ManifestHistory \<Rightarrow> string" where
  "entry_id U h =
     (case U (V1Compatibility h) V1Image_zero of Inl err \<Rightarrow> [] | Inr w \<Rightarrow> v1_ID w)"

text \<open>
  A manifest whose entries form a chain in front of a cache that agrees with it: the
  ids of the entries are pairwise different; the loop decodes every entry with its own
  id and parent; every entry but the last names the next entry's id as its parent, and
  the last entry has no parent; and a finished record that the cache holds under an
  entry's id has that id and the entry's parent (or \<^verbatim>\<open>scratch\<close>).
\<close>

definition linked :: "unmarshal \<Rightarrow> layer_cache \<Rightarrow> Manifest \<Rightarrow> bool" where
  "linked U cache m =
     (distinct (map (entry_id U) (History m)) \<and>
      (\<forall>i < length (History m).
         carries_own U m i \<and>
         (case own_v1 U m i of
            Inl err \<Rightarrow> False
          | Inr w \<Rightarrow>
              (case cache (v1_ID w) of
                 None \<Rightarrow> True
               | Some c \<Rightarrow>
                   Downloading c \<or>
                   (ID c = v1_ID w \<and>
                    Parent c = (if v1_Parent w = [] then ''scratch'' else v1_Parent w))) \<and>
              (if Suc i < length (History m)
               then (case own_v1 U m (Suc i) of
                       Inl err \<Rightarrow> False
                     | Inr w' \<Rightarrow> v1_Parent w = v1_ID w')
               else v1_Parent w = []))))"

text \<open>
  Example manifests: two linked layers; one layer that is its own parent; an FS layer
  with no history; a history entry that is not a document; a newer entry without a
  parent key over an older entry with one; and two entries with the same id.
\<close>

definition manifest_two :: Manifest where
  "manifest_two = \<lparr>Name = ''library/busybox'',
     FSLayers = [\<lparr>BlobSum = ''sha256:1111''\<rparr>, \<lparr>BlobSum = ''sha256:2222''\<rparr>],
     History = [\<lparr>V1Compatibility = doc_top\<rparr>, \<lparr>V1Compatibility = doc_base\<rparr>]\<rparr>"

definition manifest_self :: Manifest where
  "manifest_self = \<lparr>Name = ''library/busybox'',
     FSLayers = [\<lparr>BlobSum = ''sha256:1111''\<rparr>],
     History = [\<lparr>V1Compatibility = doc_self\<rparr>]\<rparr>"

definition manifest_short :: Manifest where
  "manifest_short = \<lparr>Name = ''library/busybox'',
     FSLayers = [\<lparr>BlobSum = ''sha256:1111''\<rparr>],
     History = []\<rparr>"

definition manifest_broken :: Manifest where
  "manifest_broken = \<lparr>Name = ''library/busybox'',
     FSLayers = [\<lparr>BlobSum = ''sha256:1111''\<rparr>],
     History = [\<lparr>V1Compatibility = ''not a document''\<rparr>]\<rparr>"

definition manifest_stale :: Manifest where
  "manifest_stale = \<lparr>Name = ''library/busybox'',
     FSLayers = [\<lparr>BlobSum = ''sha256:1111''\<rparr>, \<lparr>BlobSum = ''sha256:2222''\<rparr>],
     History = [\<lparr>V1Compatibility = doc_base\<rparr>, \<lparr>V1Compatibility = doc_top\<rparr>]\<rparr>"

definition manifest_twice :: Manifest where
  "manifest_twice = \<lparr>Name = ''library/busybox'',
     FSLayers = [\<lparr>BlobSum = ''sha256:1111''\<rparr>, \<lparr>BlobSum = ''sha256:2222''\<rparr>],
     History = [\<lparr>V1Compatibility = doc_self\<rparr>, \<lparr>V1Compatibility = doc_a\<rparr>]\<rparr>"

text \<open>An \<^verbatim>\<open>ImageC\<close> holding a schema-1 manifest, for the store \<^verbatim>\<open>store\<close>.\<close>

definition puller :: "Manifest \<Rightarrow> ImageC" where
  "puller m = (new_ImageC ''busybox'')\<lparr>Storename := ''store'', ImageManifestSchema1 := Some m\<rparr>"

text \<open>
  Cached records: a finished one for \<^verbatim>\<open>base\<close>, one in download for \<^verbatim>\<open>top\<close>, and a
  finished one under the id \<^verbatim>\<open>a\<close> that came from somewhere else.
\<close>

definition cached_base :: ImageWithMeta where
  "cached_base = \<lparr>ID = ''base'', Parent = ''scratch'', Store = ''store'',
     DiffID = ''sha256:dddd'', Layer = \<lparr>BlobSum = ''sha256:2222''\<rparr>, Meta = doc_base,
     Size = 1024, Downloading = False\<rparr>"

definition cached_top :: ImageWithMeta where
  "cached_top = \<lparr>ID = ''top'', Parent = ''base'', Store = ''store'',
     DiffID = [], Layer = \<lparr>BlobSum = ''sha256:1111''\<rparr>, Meta = doc_top,
     Size = 0, Downloading = True\<rparr>"

definition cached_other :: ImageWithMeta where
  "cached_other = \<lparr>ID = ''a'', Parent = ''elsewhere'', Store = ''other'',
     DiffID = ''sha256:eeee'', Layer = \<lparr>BlobSum = ''sha256:9999''\<rparr>, Meta = ''{}'',
     Size = 7, Downloading = False\<rparr>"

definition example_cache :: layer_cache where
  "example_cache = [''base'' \<mapsto> cached_base, ''top'' \<mapsto> cached_top]"

text \<open>The records the loop body builds for the entries of the example manifests.\<close>

definition fresh_top :: ImageWithMeta where
  "fresh_top = \<lparr>ID = ''top'', Parent = ''base'', Store = ''store'',
     DiffID = [], Layer = \<lparr>BlobSum = ''sha256:1111''\<rparr>, Meta = doc_top,
     Size = 0, Downloading = False\<rparr>"

definition fresh_base :: ImageWithMeta where
  "fresh_base = \<lparr>ID = ''base'', Parent = ''scratch'', Store = ''store'',
     DiffID = [], Layer = \<lparr>BlobSum = ''sha256:2222''\<rparr>, Meta = doc_base,
     Size = 0, Downloading = False\<rparr>"

definition fresh_self :: ImageWithMeta where
  "fresh_self = \<lparr>ID = ''a'', Parent = ''a'', Store = ''store'',
     DiffID = [], Layer = \<lparr>BlobSum = ''sha256:1111''\<rparr>, Meta = doc_self,
     Size = 0, Downloading = False\<rparr>"

text \<open>
  The records the loop leaves for \<^verbatim>\<open>manifest_stale\<close> (the first has kept the parent of
  the second) and for \<^verbatim>\<open>manifest_twice\<close>.
\<close>

definition stale_base :: ImageWithMeta where
  "stale_base = \<lparr>ID = ''base'', Parent = ''base'', Store = ''store'',
     DiffID = [], Layer = \<lparr>BlobSum = ''sha256:1111''\<rparr>, Meta = doc_base,
     Size = 0, Downloading = False\<rparr>"

definition stale_top :: ImageWithMeta where
  "stale_top = \<lparr>ID = ''top'', Parent = ''base'', Store = ''store'',
     DiffID = [], Layer = \<lparr>BlobSum = ''sha256:2222''\<rparr>, Meta = doc_top,
     Size = 0, Downloading = False\<rparr>"

definition twice_root :: ImageWithMeta where
  "twice_root = \<lparr>ID = ''a'', Parent = ''scratch'', Store = ''store'',
     DiffID = [], Layer = \<lparr>BlobSum = ''sha256:2222''\<rparr>, Meta = doc_a,
     Size = 0, Downloading = False\<rparr>"

subsection \<open>CreateImageConfig\<close>

text \<open>
  \<^verbatim>\<open>docker.History\<close>, \<^verbatim>\<open>docker.RootFS\<close> and the part of \<^verbatim>\<open>docker.Image\<close> the source fills:
  the embedded \<^verbatim>\<open>V1Image\<close>, the root file system and the history.
\<close>

record docker_History =
  h_Created :: string
  h_Author :: string
  h_CreatedBy :: string
  h_Comment :: string
  EmptyLayer :: bool

record RootFS =
  rootfs_Type :: string
  DiffIDs :: "string list"

record docker_Image =
  img_V1Image :: V1Image
  img_RootFS :: RootFS
  img_History :: "docker_History list"

text \<open>\<^verbatim>\<open>metadata.ImageConfig\<close>; its \<^verbatim>\<open>DiffIDs\<close> is a \<^verbatim>\<open>map[string]string\<close>.\<close>

record ImageConfig =
  cfg_V1Image :: V1Image
  cfg_ImageID :: string
  Digests :: "string list"
  Tags :: "string list"
  cfg_Name :: string
  cfg_DiffIDs :: "string \<rightharpoonup> string"
  cfg_History :: "docker_History list"
  cfg_Reference :: string

text \<open>
  What the function takes from libraries, as parameters: \<^verbatim>\<open>json.Unmarshal\<close> into a
  \<^verbatim>\<open>V1Image\<close>, \<^verbatim>\<open>MarshalJSON\<close> of a \<^verbatim>\<open>docker.Image\<close>, and the hexadecimal text of the
  SHA-256 of a byte string (\<^verbatim>\<open>fmt.Sprintf("%x", sha256.Sum256(b))\<close>).
\<close>

record codec =
  Unmarshal :: unmarshal
  MarshalJSON :: "docker_Image \<Rightarrow> error + string"
  sha256_hex :: "string \<Rightarrow> string"

text \<open>The image cache \<^verbatim>\<open>cache.ImageCache()\<close>, read by \<^verbatim>\<open>Get\<close>: \<^verbatim>\<open>None\<close> is a lookup error.\<close>

type_synonym image_cache = "string \<rightharpoonup> ImageConfig"

text \<open>\<^verbatim>\<open>strings.Join\<close>.\<close>

fun strings_Join :: "string list \<Rightarrow> string \<Rightarrow> string" where
  "strings_Join [] sep = []"
| "strings_Join [x] sep = x"
| "strings_Join (x # y # ys) sep = x @ sep @ strings_Join (y # ys) sep"

text \<open>\<^verbatim>\<open>dockerLayer.DigestSHA256EmptyTar.String()\<close>, the diff ID of the empty layer.\<close>

definition DigestSHA256EmptyTar :: string where
  "DigestSHA256EmptyTar =
     ''sha256:5f70bf18a086007016e948b04aed3b82103a36bea41755b6cddfaf10ace3c6ef''"

text \<open>\<^verbatim>\<open>docker.NewRootFS()\<close>.\<close>

definition NewRootFS :: RootFS where
  "NewRootFS = \<lparr>rootfs_Type = ''layers'', DiffIDs = []\<rparr>"

text \<open>The variables the loop of \<^verbatim>\<open>CreateImageConfig\<close> updates.\<close>

record config_state =
  cs_image :: V1Image
  cs_rootFS :: RootFS
  cs_history :: "docker_History list"
  cs_size :: "64 word"

definition config_init :: config_state where
  "config_init = \<lparr>cs_image = V1Image_zero, cs_rootFS = NewRootFS, cs_history = [], cs_size = 0\<rparr>"

text \<open>
  The loop \<^verbatim>\<open>for i := len(images) - 1; i >= 0; i--\<close>, as a recursion over the layers in
  the order the loop visits them: the caller passes \<^verbatim>\<open>rev images\<close>. \<^verbatim>\<open>size\<close> wraps as an
  \<^verbatim>\<open>int64\<close> does.
\<close>

fun config_loop :: "unmarshal \<Rightarrow> ImageWithMeta list \<Rightarrow> config_state \<Rightarrow> error + config_state" where
  "config_loop U [] st = Inr st"
| "config_loop U (layer # layers) st =
     (case U (Meta layer) (cs_image st) of
        Inl err \<Rightarrow> Inl (Error (''Failed to unmarshall layer history: '' @ err_Error err))
      | Inr image' \<Rightarrow>
          let h = \<lparr>h_Created = v1_Created image', h_Author = v1_Author image',
                   h_CreatedBy = strings_Join (Cmd (v1_ContainerConfig image')) '' '',
                   h_Comment = v1_Comment image', EmptyLayer = False\<rparr>;
              h1 = (if DiffID layer = DigestSHA256EmptyTar then h\<lparr>EmptyLayer := True\<rparr> else h);
              rootFS1 = (if DiffID layer = DigestSHA256EmptyTar then cs_rootFS st
                         else (cs_rootFS st)\<lparr>DiffIDs := DiffIDs (cs_rootFS st) @ [DiffID layer]\<rparr>)
          in config_loop U layers
               \<lparr>cs_image = image', cs_rootFS = rootFS1, cs_history = cs_history st @ [h1],
                cs_size = cs_size st + Size layer\<rparr>)"

text \<open>The document \<^verbatim>\<open>result\<close>, "constructed without unused fields", that is hashed.\<close>

definition result_document :: "config_state \<Rightarrow> docker_Image" where
  "result_document st =
     (let image' = cs_image st
      in \<lparr>img_V1Image = V1Image_zero\<lparr>
             v1_Comment := v1_Comment image',
             v1_Created := v1_Created image',
             v1_Container := v1_Container image',
             v1_ContainerConfig := v1_ContainerConfig image',
             v1_DockerVersion := v1_DockerVersion image',
             v1_Author := v1_Author image',
             v1_Config := v1_Config image',
             v1_Architecture := v1_Architecture image',
             v1_OS := v1_OS image'\<rparr>,
           img_RootFS = cs_rootFS st,
           img_History = cs_history st\<rparr>)"

text \<open>
  \<^verbatim>\<open>CreateImageConfig\<close>. \<^verbatim>\<open>GetImageID\<close> is the lookup of the repository cache by layer id.
  \<^verbatim>\<open>images[0]\<close> on an empty slice panics, and so does \<^verbatim>\<open>manifest.Name\<close> on a nil manifest.
\<close>

definition CreateImageConfig :: "codec \<Rightarrow> (string \<Rightarrow> string) \<Rightarrow> image_cache \<Rightarrow> ImageC \<Rightarrow>
    ImageWithMeta list \<Rightarrow> error + ImageConfig" where
  "CreateImageConfig L GetImageID imageCache ic images =
     (case images of
        [] \<Rightarrow> Inl (Panic ''index out of range'')
      | imageLayer # others \<Rightarrow>
          let id = GetImageID (ID imageLayer)
          in case imageCache id of
               Some image' \<Rightarrow> Inr image'
             | None \<Rightarrow>
                 (case config_loop (Unmarshal L) (rev images) config_init of
                    Inl err \<Rightarrow> Inl err
                  | Inr st \<Rightarrow>
                      let image' = cs_image st;
                          result = result_document st
                      in case MarshalJSON L result of
                           Inl err \<Rightarrow>
                             Inl (Error (''Failed to marshall image metadata: '' @ err_Error err))
                         | Inr imageConfigBytes \<Rightarrow>
                             let sum = sha256_hex L imageConfigBytes;
                                 v1 = (img_V1Image result)\<lparr>v1_Parent := v1_Parent image',
                                        v1_Size := cs_size st, v1_ID := ID imageLayer\<rparr>
                             in case ImageManifestSchema1 ic of
                                  None \<Rightarrow> Inl (Panic ''nil pointer dereference'')
                                | Some manifest \<Rightarrow>
                                    Inr \<lparr>cfg_V1Image = v1, cfg_ImageID = sum,
                                         Digests = [ManifestDigest ic], Tags = [Tag ic],
                                         cfg_Name = Name manifest, cfg_DiffIDs = Map.empty,
                                         cfg_History = cs_history st,
                                         cfg_Reference = Reference ic\<rparr>))"

text \<open>Two records that agree in every field but the in-progress flag.\<close>

definition same_but_Downloading :: "ImageWithMeta \<Rightarrow> ImageWithMeta \<Rightarrow> bool" where
  "same_but_Downloading r r' = (r' = r\<lparr>Downloading := Downloading r'\<rparr>)"

text \<open>
  Stand-ins for the library functions in the examples: a serialisation that writes the
  diff IDs and then the history, and a digest that tags its input. The theorems below
  hold for every codec.
\<close>

definition example_MarshalJSON :: "docker_Image \<Rightarrow> error + string" where
  "example_MarshalJSON img =
     Inr (''diff_ids='' @ strings_Join (DiffIDs (img_RootFS img)) '','' @ '';history='' @
          strings_Join (map (\<lambda>h. h_CreatedBy h @ (if EmptyLayer h then ''(empty)'' else []))
                         (img_History img)) '','')"

definition example_codec :: codec where
  "example_codec = \<lparr>Unmarshal = example_Unmarshal, MarshalJSON = example_MarshalJSON,
     sha256_hex = (\<lambda>b. ''digest of '' @ b)\<rparr>"

text \<open>
  The chain of the scenario, newest first: the top layer has the diff ID of the empty
  layer, the base layer has content.
\<close>

definition chain_two :: "ImageWithMeta list" where
  "chain_two = [fresh_top\<lparr>DiffID := DigestSHA256EmptyTar, Size := 32\<rparr>,
                fresh_base\<lparr>DiffID := ''sha256:dddd'', Size := 1024\<rparr>]"

definition chain_two_downloading :: "ImageWithMeta list" where
  "chain_two_downloading = [fresh_top\<lparr>DiffID := DigestSHA256EmptyTar, Size := 32, Downloading := True\<rparr>,
                fresh_base\<lparr>DiffID := ''sha256:dddd'', Size := 1024\<rparr>]"

text \<open>What \<^verbatim>\<open>CreateImageConfig\<close> returns for the chain of the scenario (see below).\<close>

definition chain_two_config :: ImageConfig where
  "chain_two_config =
     \<lparr>cfg_V1Image = V1Image_zero\<lparr>
        v1_ContainerConfig := \<lparr>Cmd = [''/bin/sh'', ''-c'', ''#(nop) CMD [sh]''], ConfigRest = []\<rparr>,
        v1_Parent := ''base'', v1_Size := 1056, v1_ID := ''top''\<rparr>,
      cfg_ImageID = ''digest of diff_ids=sha256:dddd;history=/bin/sh -c #(nop) ADD file in /,/bin/sh -c #(nop) CMD [sh](empty)'',
      Digests = [[]], Tags = [[]], cfg_Name = ''library/busybox'', cfg_DiffIDs = Map.empty,
      cfg_History = [\<lparr>h_Created = [], h_Author = [],
                        h_CreatedBy = ''/bin/sh -c #(nop) ADD file in /'',
                        h_Comment = [], EmptyLayer = False\<rparr>,
                     \<lparr>h_Created = [], h_Author = [],
                        h_CreatedBy = ''/bin/sh -c #(nop) CMD [sh]'',
                        h_Comment = [], EmptyLayer = True\<rparr>],
      cfg_Reference = ''busybox''\<rparr>"

subsection \<open>The repository cache and updateRepositoryCache\<close>

text \<open>
  Modelled from the spec: the repository cache \<^verbatim>\<open>cache.RepositoryCache()\<close>, whose package
  (\<^verbatim>\<open>lib/apiservers/engine/backends/cache\<close>) is not among the sources. The spec: a
  repository-cache entry "maps a human reference or digest reference to an image ID"; the
  cache offers "keyed lookup/insert by reference" and "supports tag and digest
  references bound to one image ID"; an image ID "is looked up by the repository cache
  using the layer ID"; and a binding that fails leaves earlier bindings in place. So the
  cache is two finite maps, \<^verbatim>\<open>GetImageID\<close> reads the second (the empty string when there
  is no entry), and \<^verbatim>\<open>AddReference\<close> either fails and leaves the cache as it was, or binds
  the reference's text to the image ID. Whether a binding fails (a conflict, a failure
  to persist) is decided by a parameter.
\<close>

record RepositoryCache =
  references :: "string \<rightharpoonup> string"
  layer_images :: "string \<rightharpoonup> string"

definition GetImageID :: "RepositoryCache \<Rightarrow> string \<Rightarrow> string" where
  "GetImageID rc layerID = (case layer_images rc layerID of Some imageID \<Rightarrow> imageID | None \<Rightarrow> [])"

type_synonym binding_failure = "RepositoryCache \<Rightarrow> Named \<Rightarrow> string \<Rightarrow> error option"

definition AddReference :: "binding_failure \<Rightarrow> RepositoryCache \<Rightarrow> Named \<Rightarrow> string \<Rightarrow> bool \<Rightarrow>
    string \<Rightarrow> bool \<Rightarrow> error option \<times> RepositoryCache" where
  "AddReference fails rc ref imageID force layerID save =
     (case fails rc ref imageID of
        Some err \<Rightarrow> (Some err, rc)
      | None \<Rightarrow> (None, rc\<lparr>references := (references rc)(RefString ref \<mapsto> imageID)\<rparr>))"

text \<open>
  \<^verbatim>\<open>updateRepositoryCache\<close>, from the source. It returns its error, the \<^verbatim>\<open>ImageC\<close> (whose
  \<^verbatim>\<open>ImageID\<close> it may fill in) and the repository cache. \<^verbatim>\<open>ic.ImageLayers[0].ID\<close> panics on
  an empty slice and on a nil first slot. The two nested tests of the image ID are
  written one after the other: when the ID was not empty nothing is assigned and the
  second test fails as the first did.
\<close>

definition updateRepositoryCache :: "parser \<Rightarrow> binding_failure \<Rightarrow> RepositoryCache \<Rightarrow> ImageC \<Rightarrow>
    error option \<times> ImageC \<times> RepositoryCache" where
  "updateRepositoryCache ParseNamed fails repoCache ic =
     (case ImageLayers ic of
        [] \<Rightarrow> (Some (Panic ''index out of range''), ic, repoCache)
      | None # others \<Rightarrow> (Some (Panic ''nil pointer dereference''), ic, repoCache)
      | Some imageLayer # others \<Rightarrow>
          let imageLayerID = ID imageLayer
          in case ParseNamed (Reference ic) of
               Inl err \<Rightarrow>
                 (Some (Error (''Unable to parse reference: '' @ err_Error err)), ic, repoCache)
             | Inr ref \<Rightarrow>
                 let ic1 = (if ImageID ic = []
                            then ic\<lparr>ImageID := GetImageID repoCache imageLayerID\<rparr>
                            else ic)
                 in if ImageID ic1 = [] then
                      (Some (Error (''ImageID not found by LayerID('' @ imageLayerID @
                                    '') in RepositoryCache'')), ic1, repoCache)
                    else
                      case AddReference fails repoCache ref (ImageID ic1) True imageLayerID True of
                        (Some err, rc1) \<Rightarrow>
                          (Some (Error (''Unable to Add Image Reference('' @ RefString ref @
                                        ''): '' @ err_Error err)), ic1, rc1)
                      | (None, rc1) \<Rightarrow>
                          (case ParseNamed (RefName ref @ ''@'' @ ManifestDigest ic1) of
                             Inl err \<Rightarrow>
                               (Some (Error (''Unable to parse digest: '' @ err_Error err)), ic1, rc1)
                           | Inr dig \<Rightarrow>
                               (case AddReference fails rc1 dig (ImageID ic1) True imageLayerID True of
                                  (Some err, rc2) \<Rightarrow>
                                    (Some (Error (''Unable to Add Image Digest('' @ RefString dig @
                                                  ''): '' @ err_Error err)), ic1, rc2)
                                | (None, rc2) \<Rightarrow> (None, ic1, rc2))))"

text \<open>
  For the examples: the digest form of the \<^verbatim>\<open>busybox\<close> reference, a parser that knows
  it, a pulled image whose ID is still to be looked up, a cache that knows the layer,
  and a cache that refuses digest references.
\<close>

definition busybox_digest_ref :: Named where
  "busybox_digest_ref = \<lparr>RefName = ''busybox'', RefString = ''busybox@sha256:e3b0c44298fc1c149afbf4c8996fb92427ae41e4649b934ca495991b7852b855'',
     Hostname = ''docker.io'', RemoteName = ''library/busybox'',
     TagOf = None, DigestOf = Some ''sha256:e3b0c44298fc1c149afbf4c8996fb92427ae41e4649b934ca495991b7852b855''\<rparr>"

definition digest_parser :: parser where
  "digest_parser s =
     (if s = ''busybox'' then Inr busybox_ref
      else if s = ''busybox@sha256:e3b0c44298fc1c149afbf4c8996fb92427ae41e4649b934ca495991b7852b855'' then Inr busybox_digest_ref
      else Inl (Error ''invalid reference format''))"

definition pulled :: ImageC where
  "pulled = (new_ImageC ''busybox'')\<lparr>ManifestDigest := ''sha256:e3b0c44298fc1c149afbf4c8996fb92427ae41e4649b934ca495991b7852b855'',
     ImageLayers := [Some fresh_top, Some fresh_base]\<rparr>"

definition known_layers :: RepositoryCache where
  "known_layers = \<lparr>references = Map.empty, layer_images = [''top'' \<mapsto> ''image-1'']\<rparr>"

definition refuse_digests :: binding_failure where
  "refuse_digests rc ref imageID =
     (if DigestOf ref \<noteq> None then Some (Error ''Cannot overwrite digest'') else None)"

definition never_fails :: binding_failure where
  "never_fails rc ref imageID = None"

subsection \<open>PullImage\<close>

text \<open>
  What a manifest fetch returns is an \<^verbatim>\<open>interface{}\<close>: a \<^verbatim>\<open>*Manifest\<close>, a
  \<^verbatim>\<open>*schema2.DeserializedManifest\<close> (either pointer may be nil), or a value of some other
  type.
\<close>

datatype fetched_manifest =
    Schema1 "Manifest option"
  | Schema2 "DeserializedManifest option"
  | OtherManifest

text \<open>
  The collaborators of \<^verbatim>\<open>PullImage\<close>, as parameters: the reference parser, the host's
  UUID, the port-layer ping, registry and OAuth discovery, the token and manifest
  fetchers (which receive \<^verbatim>\<open>ic.Options\<close>), the decoder and layer cache that
  \<^verbatim>\<open>LayersToDownload\<close> uses, and the layer downloader, which receives the \<^verbatim>\<open>ImageC\<close> by
  pointer and so returns it. The timeout context is not modelled.
\<close>

record collaborators =
  env_ParseNamed :: parser
  env_UUID :: "error + string"
  env_PingPortLayer :: "string \<Rightarrow> bool \<times> error option"
  env_LearnRegistryURL :: "Options \<Rightarrow> string \<times> error option"
  env_LearnAuthURL :: "Options \<Rightarrow> error + string option"
  env_FetchToken :: "Options \<Rightarrow> string \<Rightarrow> error + string"
  env_FetchImageManifest :: "Options \<Rightarrow> nat \<Rightarrow> error + fetched_manifest \<times> string"
  env_Unmarshal :: unmarshal
  env_LayerCache :: layer_cache
  env_DownloadLayers :: "ImageC \<Rightarrow> error option \<times> ImageC"

text \<open>
  The function in three parts, in the order of the source. The first runs from the
  reference to the OAuth token: \<^verbatim>\<open>Inl\<close> is an early \<^verbatim>\<open>return\<close> with its error (which is nil
  when the ping answers \<^verbatim>\<open>false\<close> without an error), \<^verbatim>\<open>Inr\<close> the \<^verbatim>\<open>ImageC\<close> the function
  goes on with.
\<close>

definition PullImage_connect :: "collaborators \<Rightarrow> ImageC \<Rightarrow> (error option \<times> ImageC) + ImageC" where
  "PullImage_connect env ic =
     (case ParseReference (env_ParseNamed env) ic of
        (Some err, ic0) \<Rightarrow> Inl (Some err, ic0)
      | (None, ic0) \<Rightarrow>
          (case env_UUID env of
             Inl err \<Rightarrow> Inl (Some err, ic0)
           | Inr host \<Rightarrow>
               let ic1 = ic0\<lparr>Storename := host\<rparr>
               in case env_PingPortLayer env (Host ic1) of
                    (ok, err) \<Rightarrow>
                      if err \<noteq> None \<or> \<not> ok then Inl (err, ic1)
                      else
                        (case env_LearnRegistryURL env (Options.truncate ic1) of
                           (registry, err) \<Rightarrow>
                             let ic2 = ic1\<lparr>Registry := registry\<rparr>
                             in case err of
                                  Some e \<Rightarrow> Inl (Some e, ic2)
                                | None \<Rightarrow>
                                    (case env_LearnAuthURL env (Options.truncate ic2) of
                                       Inl (ImageNotFoundError m) \<Rightarrow>
                                         Inl (Some (Error (''Error: image '' @ Reference ic2 @
                                                           '' not found'')), ic2)
                                     | Inl err \<Rightarrow>
                                         Inl (Some (Error (''Failed to obtain OAuth endpoint: '' @
                                                           err_Error err)), ic2)
                                     | Inr None \<Rightarrow> Inr ic2
                                     | Inr (Some url) \<Rightarrow>
                                         (case env_FetchToken env (Options.truncate ic2) url of
                                            Inl err \<Rightarrow> Inl (Some err, ic2)
                                          | Inr token \<Rightarrow> Inr (ic2\<lparr>Token := Some token\<rparr>))))))"

text \<open>
  The second part fetches the manifests. The schema-1 manifest is required; the result
  of the schema-2 fetch is used only when there is no error and the value is a
  \<^verbatim>\<open>*schema2.DeserializedManifest\<close>.
\<close>

definition PullImage_manifests :: "collaborators \<Rightarrow> ImageC \<Rightarrow> error + ImageC" where
  "PullImage_manifests env ic =
     (case env_FetchImageManifest env (Options.truncate ic) 1 of
        Inl (ImageNotFoundError m) \<Rightarrow>
          Inl (Error (''Error: image '' @ Image ic @ '' not found''))
      | Inl (TagNotFoundError m) \<Rightarrow>
          Inl (Error (''Tag '' @ Tag ic @ '' not found in repository '' @ Image ic))
      | Inl err \<Rightarrow>
          Inl (Error (''Error while pulling image manifest: '' @ err_Error err))
      | Inr (Schema1 schema1, digest) \<Rightarrow>
          let ic1 = ic\<lparr>ImageManifestSchema1 := schema1, ManifestDigest := digest\<rparr>
          in (case env_FetchImageManifest env (Options.truncate ic1) 2 of
                Inr (Schema2 schema2, digest2) \<Rightarrow>
                  Inr (ic1\<lparr>ImageManifestSchema2 := schema2, ManifestDigest := digest2\<rparr>)
              | Inr other \<Rightarrow> Inr ic1
              | Inl err \<Rightarrow> Inr ic1)
      | Inr other \<Rightarrow> Inl (Error ''Error pulling manifest schema 1''))"

text \<open>The third part builds the layer list and downloads the layers.\<close>

definition PullImage_layers :: "collaborators \<Rightarrow> ImageC \<Rightarrow> error option \<times> ImageC" where
  "PullImage_layers env ic =
     (case LayersToDownload (env_Unmarshal env) (env_LayerCache env) ic of
        Inl err \<Rightarrow> (Some err, ic)
      | Inr layers \<Rightarrow> env_DownloadLayers env (ic\<lparr>ImageLayers := layers\<rparr>))"

definition PullImage :: "collaborators \<Rightarrow> ImageC \<Rightarrow> error option \<times> ImageC" where
  "PullImage env ic =
     (case PullImage_connect env ic of
        Inl returned \<Rightarrow> returned
      | Inr ic1 \<Rightarrow>
          (case PullImage_manifests env ic1 of
             Inl err \<Rightarrow> (Some err, ic1)
           | Inr ic2 \<Rightarrow> PullImage_layers env ic2))"

text \<open>
  For the example: a registry that serves the two-layer manifest under schema 1 and
  answers the schema-2 request with an error; every other collaborator succeeds, and no
  OAuth endpoint is needed.
\<close>

definition schema1_only :: collaborators where
  "schema1_only = \<lparr>
     env_ParseNamed = scenario_parser,
     env_UUID = Inr ''store'',
     env_PingPortLayer = (\<lambda>host. (True, None)),
     env_LearnRegistryURL = (\<lambda>options. (''https://registry-1.docker.io/v2/'', None)),
     env_LearnAuthURL = (\<lambda>options. Inr None),
     env_FetchToken = (\<lambda>options url. Inl (Error ''no token'')),
     env_FetchImageManifest = (\<lambda>options schema.
        if schema = 1 then Inr (Schema1 (Some manifest_two), ''sha256:1111'')
        else Inl (Error ''manifest unknown'')),
     env_Unmarshal = example_Unmarshal,
     env_LayerCache = Map.empty,
     env_DownloadLayers = (\<lambda>ic. (None, ic))\<rparr>"

definition connected :: ImageC where
  "connected = (new_ImageC ''busybox'')\<lparr>Tag := ''latest'',
     Registry := ''https://registry-1.docker.io/v2/'', Image := ''library/busybox'',
     Storename := ''store''\<rparr>"

subsection \<open>Paths and DestinationDirectory\<close>

text \<open>
  \<^verbatim>\<open>path.Clean\<close> and \<^verbatim>\<open>path.Join\<close> of Go's standard library, on the elements between
  slashes. \<^verbatim>\<open>Clean\<close> drops empty elements and \<^verbatim>\<open>.\<close> elements; a \<^verbatim>\<open>..\<close> element removes the
  element before it when that is a name, is kept when the path is not rooted and
  nothing can be removed, and is dropped at the root; the empty result is \<^verbatim>\<open>.\<close>.
  \<^verbatim>\<open>Join\<close> ignores leading empty elements, joins the others with slashes and cleans the
  result; of empty elements only, it is the empty string.
\<close>

fun split_slash :: "string \<Rightarrow> string list" where
  "split_slash [] = [[]]"
| "split_slash (c # cs) =
     (if c = CHR ''/'' then [] # split_slash cs
      else (case split_slash cs of [] \<Rightarrow> [[c]] | e # es \<Rightarrow> (c # e) # es))"

fun clean_elements :: "bool \<Rightarrow> string list \<Rightarrow> string list \<Rightarrow> string list" where
  "clean_elements rooted [] out = rev out"
| "clean_elements rooted (e # es) out =
     (if e = [] \<or> e = ''.'' then clean_elements rooted es out
      else if e = ''..'' then
        (if out \<noteq> [] \<and> hd out \<noteq> ''..'' then clean_elements rooted es (tl out)
         else if \<not> rooted then clean_elements rooted es (''..'' # out)
         else clean_elements rooted es out)
      else clean_elements rooted es (e # out))"

definition path_Clean :: "string \<Rightarrow> string" where
  "path_Clean p =
     (if p = [] then ''.''
      else
        let rooted = (hd p = CHR ''/'');
            out = strings_Join (clean_elements rooted (split_slash p) []) ''/''
        in if rooted then CHR ''/'' # out else if out = [] then ''.'' else out)"

definition path_Join :: "string list \<Rightarrow> string" where
  "path_Join elem =
     (case dropWhile (\<lambda>e. e = []) elem of
        [] \<Rightarrow> []
      | e # es \<Rightarrow> path_Clean (strings_Join (e # es) ''/''))"

text \<open>
  The fields of \<^verbatim>\<open>url.URL\<close> the source reads. \<^verbatim>\<open>url.Parse\<close> is a parameter; \<^verbatim>\<open>None\<close> is a
  parse error, on which the source is left with a nil \<^verbatim>\<open>*url.URL\<close>.
\<close>

record URL =
  Scheme :: string
  url_Host :: string
  url_Path :: string

type_synonym url_parser = "string \<Rightarrow> URL option"

text \<open>
  \<^verbatim>\<open>DestinationDirectory\<close>. The error of \<^verbatim>\<open>url.Parse\<close> is discarded, so reading \<^verbatim>\<open>u.Scheme\<close>
  after a failed parse dereferences nil.
\<close>

definition DestinationDirectory :: "url_parser \<Rightarrow> 'a Options_scheme \<Rightarrow> error + string" where
  "DestinationDirectory url_Parse options =
     (case url_Parse (Registry options) of
        None \<Rightarrow> Inl (Panic ''nil pointer dereference'')
      | Some u \<Rightarrow>
          Inr (path_Join [Destination options, Scheme u, url_Host u, url_Path u,
                          Image options, Tag options]))"

text \<open>
  A plain path segment: not empty, without a slash, and neither \<^verbatim>\<open>.\<close> nor \<^verbatim>\<open>..\<close>.
  A component is dot-free when none of its elements is \<^verbatim>\<open>.\<close> or \<^verbatim>\<open>..\<close>. The names of a
  list of components are their elements, in order, without the empty ones.
\<close>

definition plain_segment :: "string \<Rightarrow> bool" where
  "plain_segment e = (e \<noteq> [] \<and> CHR ''/'' \<notin> set e \<and> e \<noteq> ''.'' \<and> e \<noteq> ''..'')"

definition dot_free :: "string \<Rightarrow> bool" where
  "dot_free c = list_all (\<lambda>e. e \<noteq> ''.'' \<and> e \<noteq> ''..'') (split_slash c)"

definition names :: "string list \<Rightarrow> string list" where
  "names parts = filter (\<lambda>e. e \<noteq> []) (concat (map split_slash parts))"

text \<open>
  For the examples: what \<^verbatim>\<open>url.Parse\<close> returns for three registry URLs on one host
  (a longer path, a trailing slash), and an error for any other text.
\<close>

definition example_url_Parse :: url_parser where
  "example_url_Parse s =
     (if s = ''https://r.io/v2'' then
        Some \<lparr>Scheme = ''https'', url_Host = ''r.io'', url_Path = ''/v2''\<rparr>
      else if s = ''https://r.io/v2/library'' then
        Some \<lparr>Scheme = ''https'', url_Host = ''r.io'', url_Path = ''/v2/library''\<rparr>
      else if s = ''https://r.io/v2/'' then
        Some \<lparr>Scheme = ''https'', url_Host = ''r.io'', url_Path = ''/v2/''\<rparr>
      else None)"

definition options_for :: "string \<Rightarrow> string \<Rightarrow> string \<Rightarrow> ImageC" where
  "options_for registry img tag =
     (new_ImageC [])\<lparr>Destination := ''images'', Registry := registry, Image := img, Tag := tag\<rparr>"

subsection \<open>WriteImageBlob\<close>

text \<open>
  The operating system and the image store, as parameters over a state of the world
  \<^verbatim>\<open>'w\<close> and open files \<^verbatim>\<open>'f\<close>: \<^verbatim>\<open>os.Open\<close>, \<^verbatim>\<open>f.Stat\<close> (the size), the store writer
  \<^verbatim>\<open>WriteImage\<close> reading the wrapped file, and \<^verbatim>\<open>os.RemoveAll\<close>. Closing the files and
  reporting progress change nothing that is returned or kept.
\<close>

record ('w, 'f) system =
  os_Open :: "'w \<Rightarrow> string \<Rightarrow> error + 'f"
  file_Stat :: "'w \<Rightarrow> 'f \<Rightarrow> error + int"
  WriteImage :: "'w \<Rightarrow> string \<Rightarrow> ImageWithMeta \<Rightarrow> 'f \<Rightarrow> error option \<times> 'w"
  os_RemoveAll :: "'w \<Rightarrow> string \<Rightarrow> error option \<times> 'w"

definition WriteImageBlob :: "('w, 'f) system \<Rightarrow> url_parser \<Rightarrow> ImageC \<Rightarrow> ImageWithMeta \<Rightarrow> bool \<Rightarrow>
    'w \<Rightarrow> error option \<times> 'w" where
  "WriteImageBlob sys url_Parse ic img cleanup w =
     (case DestinationDirectory url_Parse ic of
        Inl err \<Rightarrow> (Some err, w)
      | Inr destination \<Rightarrow>
          let id = ID img
          in case os_Open sys w (path_Join [destination, id, id @ ''.tar'']) of
               Inl err \<Rightarrow> (Some (Error (''Failed to open file: '' @ err_Error err)), w)
             | Inr f \<Rightarrow>
                 (case file_Stat sys w f of
                    Inl err \<Rightarrow> (Some (Error (''Failed to stat file: '' @ err_Error err)), w)
                  | Inr fi \<Rightarrow>
                      (case WriteImage sys w (Host ic) img f of
                         (Some err, w1) \<Rightarrow>
                           (Some (Error (''Failed to write to image store: '' @ err_Error err)), w1)
                       | (None, w1) \<Rightarrow>
                           if cleanup then
                             (case os_RemoveAll sys w1 destination of
                                (Some err, w2) \<Rightarrow>
                                  (Some (Error (''Failed to remove download directory: '' @
                                                err_Error err)), w2)
                              | (None, w2) \<Rightarrow> (None, w2))
                           else (None, w1))))"

text \<open>
  A world for the examples: the files of the scratch directory by path, and the ids of
  the layers written to the store. A file is opened by its path, its handle is its
  content; the store rejects an empty tar; removal deletes every file under a path.
\<close>

record world =
  files :: "string \<rightharpoonup> string"
  stored :: "string list"

definition example_system :: "(world, string) system" where
  "example_system = \<lparr>
     os_Open = (\<lambda>w p. case files w p of
                         None \<Rightarrow> Inl (Error ''no such file or directory'')
                       | Some content \<Rightarrow> Inr content),
     file_Stat = (\<lambda>w f. Inr (int (length f))),
     WriteImage = (\<lambda>w host img f.
                     if f = [] then (Some (Error ''unexpected EOF''), w)
                     else (None, w\<lparr>stored := stored w @ [ID img]\<rparr>)),
     os_RemoveAll = (\<lambda>w p. (None, w\<lparr>files := (\<lambda>q. if take (length p) q = p then None
                                                     else files w q)\<rparr>))\<rparr>"

definition downloaded :: "string \<Rightarrow> world" where
  "downloaded tar = \<lparr>files = [''images/https/r.io/v2/busybox/latest/top/top.tar'' \<mapsto> tar],
     stored = []\<rparr>"

section \<open>Properties of ParseReference\<close>

text \<open>
  C10. When the reference string does not parse, \<^verbatim>\<open>ParseReference\<close> returns the parser's
  error and the \<^verbatim>\<open>ImageC\<close> is exactly what it was: \<^verbatim>\<open>Tag\<close>, \<^verbatim>\<open>Registry\<close> and \<^verbatim>\<open>Image\<close>
  (and every other field) keep their prior values.
\<close>

theorem ParseReference_error_atomic:
  assumes "ParseNamed (Reference ic) = Inl err"
  shows "ParseReference ParseNamed ic = (Some err, ic)"
  using assms by (simp add: ParseReference_def)

theorem ParseReference_error_atomic_witness:
  "ParseReference scenario_parser
     ((new_ImageC ''Bad Ref'')\<lparr>Tag := ''t0'', Registry := ''r0'', Image := ''i0''\<rparr>)
   = (Some (Error ''invalid reference format''),
      (new_ImageC ''Bad Ref'')\<lparr>Tag := ''t0'', Registry := ''r0'', Image := ''i0''\<rparr>)"
proof -
  let ?ic = "(new_ImageC ''Bad Ref'')\<lparr>Tag := ''t0'', Registry := ''r0'', Image := ''i0''\<rparr>"
  have "scenario_parser (Reference ?ic) = Inl (Error ''invalid reference format'')"
    by (simp add: scenario_parser_def new_ImageC_def)
  then show ?thesis
    by (rule ParseReference_error_atomic [of scenario_parser ?ic])
qed

text \<open>
  C6. For any parser that reads \<^verbatim>\<open>busybox\<close> and
  \<^verbatim>\<open>myregistry.example.com:5000/app:v2\<close> as docker's reference package does,
  \<^verbatim>\<open>ParseReference\<close> resolves the first to the default registry host, repository
  \<^verbatim>\<open>library/busybox\<close> and tag \<^verbatim>\<open>latest\<close>, and the second to host
  \<^verbatim>\<open>myregistry.example.com:5000\<close>, repository \<^verbatim>\<open>app\<close> and tag \<^verbatim>\<open>v2\<close>. In general, for a
  reference that parses, the registry is the default registry host when the parsed host
  is the default marker (and the parsed host otherwise), the tag is the default tag when
  the reference names only a repository, and the image is the parsed remote name.
\<close>

theorem ParseReference_resolves:
  assumes busybox: "ParseNamed ''busybox'' = Inr busybox_ref"
    and myregistry: "ParseNamed ''myregistry.example.com:5000/app:v2'' = Inr myregistry_ref"
    and parsed: "ParseNamed (Reference ic) = Inr ref"
  shows "ParseReference ParseNamed (ic0\<lparr>Reference := ''busybox''\<rparr>) =
           (None, ic0\<lparr>Reference := ''busybox'', Tag := ''latest'',
                      Registry := DefaultDockerURL, Image := ''library/busybox''\<rparr>)
       \<and> ParseReference ParseNamed (ic0\<lparr>Reference := ''myregistry.example.com:5000/app:v2''\<rparr>) =
           (None, ic0\<lparr>Reference := ''myregistry.example.com:5000/app:v2'', Tag := ''v2'',
                      Registry := ''myregistry.example.com:5000'', Image := ''app''\<rparr>)
       \<and> fst (ParseReference ParseNamed ic) = None
       \<and> Registry (snd (ParseReference ParseNamed ic)) =
           (if Hostname ref = DefaultHostname then DefaultDockerURL else Hostname ref)
       \<and> (IsNameOnly ref \<longrightarrow> Tag (snd (ParseReference ParseNamed ic)) = DefaultTag)
       \<and> Image (snd (ParseReference ParseNamed ic)) = RemoteName ref"
proof -
  have a: "ParseReference ParseNamed (ic0\<lparr>Reference := ''busybox''\<rparr>) =
           (None, ic0\<lparr>Reference := ''busybox'', Tag := ''latest'',
                      Registry := DefaultDockerURL, Image := ''library/busybox''\<rparr>)"
    using busybox
    by (simp add: ParseReference_def busybox_ref_def IsNameOnly_def DefaultTag_def
        DefaultHostname_def)
  have b: "ParseReference ParseNamed (ic0\<lparr>Reference := ''myregistry.example.com:5000/app:v2''\<rparr>) =
           (None, ic0\<lparr>Reference := ''myregistry.example.com:5000/app:v2'', Tag := ''v2'',
                      Registry := ''myregistry.example.com:5000'', Image := ''app''\<rparr>)"
    using myregistry
    by (simp add: ParseReference_def myregistry_ref_def IsNameOnly_def DefaultTag_def
        DefaultHostname_def)
  have c: "fst (ParseReference ParseNamed ic) = None"
    using parsed by (simp add: ParseReference_def Let_def)
  have d: "Registry (snd (ParseReference ParseNamed ic)) =
           (if Hostname ref = DefaultHostname then DefaultDockerURL else Hostname ref)"
    using parsed by (simp add: ParseReference_def Let_def split: option.splits)
  have e: "IsNameOnly ref \<longrightarrow> Tag (snd (ParseReference ParseNamed ic)) = DefaultTag"
    using parsed by (simp add: ParseReference_def Let_def)
  have f: "Image (snd (ParseReference ParseNamed ic)) = RemoteName ref"
    using parsed by (simp add: ParseReference_def Let_def split: option.splits)
  from a b c d e f show ?thesis by blast
qed

text \<open>
  The witness: the parser of the two scenarios, and the general part at the bare name,
  which names only a repository on the default host.
\<close>

theorem ParseReference_resolves_witness:
  "ParseReference scenario_parser (new_ImageC ''busybox'') =
     (None, (new_ImageC ''busybox'')\<lparr>Tag := ''latest'',
        Registry := ''registry-1.docker.io'', Image := ''library/busybox''\<rparr>)
   \<and> ParseReference scenario_parser (new_ImageC ''myregistry.example.com:5000/app:v2'') =
     (None, (new_ImageC ''myregistry.example.com:5000/app:v2'')\<lparr>Tag := ''v2'',
        Registry := ''myregistry.example.com:5000'', Image := ''app''\<rparr>)
   \<and> Tag (snd (ParseReference scenario_parser (new_ImageC ''busybox''))) = ''latest''"
proof -
  have h1: "scenario_parser ''busybox'' = Inr busybox_ref"
    by (simp add: scenario_parser_def)
  have h2: "scenario_parser ''myregistry.example.com:5000/app:v2'' = Inr myregistry_ref"
    by (simp add: scenario_parser_def)
  have h3: "scenario_parser (Reference (new_ImageC ''busybox'')) = Inr busybox_ref"
    by (simp add: scenario_parser_def new_ImageC_def)
  have n: "IsNameOnly busybox_ref"
    by (simp add: IsNameOnly_def busybox_ref_def)
  note r = ParseReference_resolves [OF h1 h2 h3]
  have "(new_ImageC ''busybox'')\<lparr>Reference := ''busybox''\<rparr> = new_ImageC ''busybox''"
    by (simp add: new_ImageC_def)
  moreover have "(new_ImageC ''myregistry.example.com:5000/app:v2'')
      \<lparr>Reference := ''myregistry.example.com:5000/app:v2''\<rparr>
      = new_ImageC ''myregistry.example.com:5000/app:v2''"
    by (simp add: new_ImageC_def)
  ultimately show ?thesis
    using r [of "new_ImageC ''busybox''"] r [of "new_ImageC ''myregistry.example.com:5000/app:v2''"] n
    by (simp add: DefaultTag_def DefaultDockerURL_def)
qed

section \<open>Properties of LayersToDownload\<close>

lemma rev_take_Suc_drop:
  assumes "j \<le> k" and "k < length hs"
  shows "rev (map f (take (Suc k - j) (drop j hs))) = f (hs ! k) # rev (map f (take (k - j) (drop j hs)))"
proof -
  have "Suc k - j = Suc (k - j)" using assms by simp
  moreover have "k - j < length (drop j hs)" using assms by simp
  ultimately have "take (Suc k - j) (drop j hs) = take (k - j) (drop j hs) @ [drop j hs ! (k - j)]"
    by (simp add: take_Suc_conv_app_nth)
  moreover have "drop j hs ! (k - j) = hs ! k" using assms by simp
  ultimately show ?thesis by simp
qed

lemma layers_loop_result:
  assumes "layers_loop U cache st m k v1 images = Inr res"
    and "length images = length (FSLayers m)"
  shows "length res = length images
       \<and> (\<forall>j. k \<le> j \<longrightarrow> res ! j = images ! j)
       \<and> (\<forall>j<k. \<exists>v. unmarshal_all U (rev (map V1Compatibility (take (k - j) (drop j (History m))))) v1 = Inr v
              \<and> res ! j = Some (accepted cache (new_ImageWithMeta st v (History m ! j) (FSLayers m ! j))))"
  using assms
proof (induction k arbitrary: v1 images)
  case 0
  then show ?case by simp
next
  case (Suc k)
  from Suc.prems(1) have kh: "k < length (History m)" and kf: "k < length (FSLayers m)"
    by (auto split: if_splits)
  from Suc.prems(1) kh kf obtain v1' where u: "U (V1Compatibility (History m ! k)) v1 = Inr v1'"
    by (auto simp: Let_def split: sum.splits)
  let ?fresh = "new_ImageWithMeta st v1' (History m ! k) (FSLayers m ! k)"
  let ?images2 = "images[k := Some (accepted cache ?fresh)]"
  have rec: "layers_loop U cache st m k v1' ?images2 = Inr res"
    using Suc.prems(1) kh kf u
    by (auto simp: Let_def accepted_def split: option.splits if_splits)
  have len2: "length ?images2 = length (FSLayers m)" using Suc.prems(2) by simp
  note ih = Suc.IH [OF rec len2]
  have a: "length res = length images" using ih by simp
  have b: "\<forall>j. Suc k \<le> j \<longrightarrow> res ! j = images ! j"
    using ih by auto
  have ck: "res ! k = Some (accepted cache ?fresh)"
  proof -
    have "res ! k = ?images2 ! k" using ih by blast
    then show ?thesis using kf Suc.prems(2) by simp
  qed
  have c: "\<exists>v. unmarshal_all U (rev (map V1Compatibility (take (Suc k - j) (drop j (History m))))) v1 = Inr v
              \<and> res ! j = Some (accepted cache (new_ImageWithMeta st v (History m ! j) (FSLayers m ! j)))"
    if "j < Suc k" for j
  proof (cases "j = k")
    case True
    have "take (Suc 0) (drop k (History m)) = [History m ! k]"
      using kh by (simp add: take_Suc_conv_app_nth)
    then show ?thesis using True u ck by simp
  next
    case False
    with that have jk: "j < k" by simp
    from ih jk obtain v where
      v: "unmarshal_all U (rev (map V1Compatibility (take (k - j) (drop j (History m))))) v1' = Inr v"
      and r: "res ! j = Some (accepted cache (new_ImageWithMeta st v (History m ! j) (FSLayers m ! j)))"
      by blast
    have "rev (map V1Compatibility (take (Suc k - j) (drop j (History m))))
        = V1Compatibility (History m ! k) # rev (map V1Compatibility (take (k - j) (drop j (History m))))"
      using jk kh by (intro rev_take_Suc_drop) simp_all
    then show ?thesis using u v r by simp
  qed
  from a b c show ?case by blast
qed

lemma layers_loop_returns:
  assumes "k \<le> length (History m)" and "k \<le> length (FSLayers m)"
    and "unmarshal_all U (rev (map V1Compatibility (take k (History m)))) v1 = Inr v"
  shows "\<exists>res. layers_loop U cache st m k v1 images = Inr res"
  using assms
proof (induction k arbitrary: v1 images)
  case 0
  then show ?case by simp
next
  case (Suc k)
  have kh: "k < length (History m)" and kf: "k < length (FSLayers m)"
    using Suc.prems by simp_all
  have "take (Suc k) (History m) = take k (History m) @ [History m ! k]"
    using kh by (simp add: take_Suc_conv_app_nth)
  with Suc.prems(3) obtain v1' where u: "U (V1Compatibility (History m ! k)) v1 = Inr v1'"
    and rest: "unmarshal_all U (rev (map V1Compatibility (take k (History m)))) v1' = Inr v"
    by (auto split: sum.splits)
  from Suc.IH [OF _ _ rest] kh kf
  have "\<exists>res. layers_loop U cache st m k v1' images' = Inr res" for images'
    by simp
  then show ?case using kh kf u
    by (simp add: Let_def split: option.splits)
qed

lemma records_member: "i < length images \<Longrightarrow> images ! i = Some r \<Longrightarrow> r \<in> set (records images)"
  by (force simp: records_def map_filter_def in_set_conv_nth)

lemma accepted_miss:
  "(case cache (ID fresh) of Some c \<Rightarrow> Downloading c | None \<Rightarrow> True) \<Longrightarrow> accepted cache fresh = fresh"
  by (simp add: accepted_def split: option.splits)

lemma LayersToDownload_characterised:
  assumes m: "ImageManifestSchema1 ic = Some m"
    and res: "LayersToDownload U cache ic = Inr images"
  shows "length images = length (FSLayers m)
       \<and> (\<forall>j. length (History m) \<le> j \<and> j < length (FSLayers m) \<longrightarrow> images ! j = None)
       \<and> (\<forall>j<length (History m). j < length images \<and> (\<exists>v. v1_at U m j = Inr v
              \<and> images ! j = Some (accepted cache (new_ImageWithMeta (Storename ic) v (History m ! j) (FSLayers m ! j)))))"
proof -
  let ?n = "length (History m)"
  let ?init = "replicate (length (FSLayers m)) (None :: ImageWithMeta option)"
  have loop: "layers_loop U cache (Storename ic) m ?n V1Image_zero ?init = Inr images"
    using m res by (simp add: LayersToDownload_def)
  have le: "?n \<le> length (FSLayers m)"
  proof (cases ?n)
    case 0
    then show ?thesis by simp
  next
    case (Suc k)
    with loop show ?thesis by (auto split: if_splits)
  qed
  note r = layers_loop_result [OF loop, simplified]
  have a: "length images = length (FSLayers m)" using r by simp
  have b: "\<forall>j. ?n \<le> j \<and> j < length (FSLayers m) \<longrightarrow> images ! j = None"
    using r by simp
  have c: "\<forall>j<?n. j < length images \<and> (\<exists>v. v1_at U m j = Inr v
              \<and> images ! j = Some (accepted cache (new_ImageWithMeta (Storename ic) v (History m ! j) (FSLayers m ! j))))"
    using r le a by (auto simp: v1_at_def)
  from a b c show ?thesis by blast
qed

lemma LayersToDownload_returns:
  assumes m: "ImageManifestSchema1 ic = Some m"
    and le: "length (History m) \<le> length (FSLayers m)"
    and dec: "v1_at U m 0 = Inr v0"
  shows "\<exists>images. LayersToDownload U cache ic = Inr images"
proof -
  have "unmarshal_all U (rev (map V1Compatibility (take (length (History m)) (History m)))) V1Image_zero = Inr v0"
    using dec by (simp add: v1_at_def)
  from layers_loop_returns [OF _ le this] m show ?thesis
    by (simp add: LayersToDownload_def)
qed

lemmas example_docs = doc_self_def doc_base_def doc_top_def doc_a_def

lemma example_two_run:
  "LayersToDownload example_Unmarshal example_cache (puller manifest_two)
     = Inr [Some fresh_top, Some cached_base]"
  by (simp add: LayersToDownload_def puller_def new_ImageC_def manifest_two_def
      numeral_2_eq_2 example_Unmarshal_def example_docs V1Image_zero_def
      new_ImageWithMeta_def example_cache_def cached_base_def cached_top_def fresh_top_def)

lemma example_two_run_nocache:
  "LayersToDownload example_Unmarshal Map.empty (puller manifest_two)
     = Inr [Some fresh_top, Some fresh_base]"
  by (simp add: LayersToDownload_def puller_def new_ImageC_def manifest_two_def
      numeral_2_eq_2 example_Unmarshal_def example_docs V1Image_zero_def
      new_ImageWithMeta_def fresh_base_def fresh_top_def)

text \<open>
  C7. When \<^verbatim>\<open>LayersToDownload\<close> returns, then at every manifest index: if the layer cache
  holds an entry for the id of the record just built and that entry is not downloading,
  the cached record stands at the index; if the lookup fails or the entry is
  downloading, the record just built stands there.
\<close>

theorem LayersToDownload_cache_substitution:
  assumes "ImageManifestSchema1 ic = Some m"
    and "LayersToDownload U cache ic = Inr images"
    and "i < length (History m)"
  shows "i < length images \<and>
     (\<exists>v1. v1_at U m i = Inr v1 \<and>
        (let fresh = new_ImageWithMeta (Storename ic) v1 (History m ! i) (FSLayers m ! i)
         in images ! i = Some (case cache (ID fresh) of
                                 Some cached \<Rightarrow> if \<not> Downloading cached then cached else fresh
                               | None \<Rightarrow> fresh)))"
proof -
  from LayersToDownload_characterised [OF assms(1,2)] assms(3)
  obtain v where "i < length images" and "v1_at U m i = Inr v"
    and "images ! i = Some (accepted cache
           (new_ImageWithMeta (Storename ic) v (History m ! i) (FSLayers m ! i)))"
    by blast
  then show ?thesis by (simp add: accepted_def Let_def)
qed

text \<open>
  The witness: two layers, the older with a finished cache entry (substituted), the
  newer with an entry still downloading (the fresh record is kept).
\<close>

theorem LayersToDownload_cache_substitution_witness:
  "LayersToDownload example_Unmarshal example_cache (puller manifest_two)
     = Inr [Some fresh_top, Some cached_base]
   \<and> example_cache ''base'' = Some cached_base \<and> \<not> Downloading cached_base
   \<and> example_cache ''top'' = Some cached_top \<and> Downloading cached_top
   \<and> (\<exists>v1. v1_at example_Unmarshal manifest_two 1 = Inr v1 \<and>
        (let fresh = new_ImageWithMeta ''store'' v1 \<lparr>V1Compatibility = doc_base\<rparr> \<lparr>BlobSum = ''sha256:2222''\<rparr>
         in [Some fresh_top, Some cached_base] ! 1 =
            Some (case example_cache (ID fresh) of
                    Some cached \<Rightarrow> if \<not> Downloading cached then cached else fresh
                  | None \<Rightarrow> fresh)))"
proof -
  have m: "ImageManifestSchema1 (puller manifest_two) = Some manifest_two"
    by (simp add: puller_def new_ImageC_def)
  have i: "1 < length (History manifest_two)"
    by (simp add: manifest_two_def)
  have st: "Storename (puller manifest_two) = ''store''"
    by (simp add: puller_def new_ImageC_def)
  have c: "example_cache ''base'' = Some cached_base \<and> \<not> Downloading cached_base
     \<and> example_cache ''top'' = Some cached_top \<and> Downloading cached_top"
    by (simp add: example_cache_def cached_base_def cached_top_def)
  from LayersToDownload_cache_substitution [OF m example_two_run i] example_two_run c st
  show ?thesis by (simp add: manifest_two_def)
qed

lemma reaches_scratch_Suc: "reaches_scratch recs n r \<Longrightarrow> reaches_scratch recs (Suc n) r"
proof (induction n arbitrary: r)
  case 0
  then show ?case by simp
next
  case (Suc n)
  then show ?case by (auto simp: list_ex_iff list_all_iff)
qed

lemma reaches_scratch_mono: "reaches_scratch recs n r \<Longrightarrow> n \<le> k \<Longrightarrow> reaches_scratch recs k r"
proof (induction k)
  case 0
  then show ?case by simp
next
  case (Suc k)
  show ?case
  proof (cases "n = Suc k")
    case True
    with Suc.prems show ?thesis by simp
  next
    case False
    with Suc.prems have "n \<le> k" by simp
    with Suc show ?thesis using reaches_scratch_Suc by blast
  qed
qed

lemma records_nth:
  assumes "r \<in> set (records images)"
  shows "\<exists>j<length images. images ! j = Some r"
  using assms by (auto simp: records_def map_filter_def in_set_conv_nth)

lemma new_ImageWithMeta_own:
  assumes "v1_ID v = v1_ID w" and "v1_Parent v = v1_Parent w"
  shows "new_ImageWithMeta st v h l = new_ImageWithMeta st w h l"
  using assms by (simp add: new_ImageWithMeta_def)

lemma carries_own_record:
  assumes c: "carries_own U m i"
    and v: "v1_at U m i = Inr v"
  shows "\<exists>w. own_v1 U m i = Inr w
     \<and> new_ImageWithMeta st v h l = new_ImageWithMeta st w h l"
proof -
  from c v obtain w where w: "own_v1 U m i = Inr w"
    and "v1_ID v = v1_ID w" "v1_Parent v = v1_Parent w"
    by (auto simp: carries_own_def split: sum.splits)
  then show ?thesis using new_ImageWithMeta_own by blast
qed

lemma accepted_cases:
  "accepted cache fresh = fresh \<or>
   (\<exists>c. cache (ID fresh) = Some c \<and> \<not> Downloading c \<and> accepted cache fresh = c)"
  by (auto simp: accepted_def split: option.splits)

lemma linked_at:
  assumes lk: "linked U cache m" and i: "i < length (History m)"
  shows "\<exists>w. own_v1 U m i = Inr w \<and> carries_own U m i
       \<and> entry_id U (History m ! i) = v1_ID w
       \<and> (\<forall>c. cache (v1_ID w) = Some c \<and> \<not> Downloading c \<longrightarrow>
              ID c = v1_ID w \<and> Parent c = (if v1_Parent w = [] then ''scratch'' else v1_Parent w))
       \<and> (if Suc i < length (History m)
          then (\<exists>w'. own_v1 U m (Suc i) = Inr w' \<and> v1_Parent w = v1_ID w')
          else v1_Parent w = [])"
proof -
  from lk i have c: "carries_own U m i"
    and b: "case own_v1 U m i of
            Inl err \<Rightarrow> False
          | Inr w \<Rightarrow>
              (case cache (v1_ID w) of
                 None \<Rightarrow> True
               | Some c \<Rightarrow>
                   Downloading c \<or>
                   (ID c = v1_ID w \<and>
                    Parent c = (if v1_Parent w = [] then ''scratch'' else v1_Parent w))) \<and>
              (if Suc i < length (History m)
               then (case own_v1 U m (Suc i) of
                       Inl err \<Rightarrow> False
                     | Inr w' \<Rightarrow> v1_Parent w = v1_ID w')
               else v1_Parent w = [])"
    unfolding linked_def by blast+
  from b obtain w where w: "own_v1 U m i = Inr w" by (cases "own_v1 U m i") auto
  have e: "entry_id U (History m ! i) = v1_ID w"
    using w by (simp add: entry_id_def own_v1_def)
  from b w have cch: "\<forall>c. cache (v1_ID w) = Some c \<and> \<not> Downloading c \<longrightarrow>
              ID c = v1_ID w \<and> Parent c = (if v1_Parent w = [] then ''scratch'' else v1_Parent w)"
    by (auto split: option.splits)
  from b w have nx: "if Suc i < length (History m)
          then (\<exists>w'. own_v1 U m (Suc i) = Inr w' \<and> v1_Parent w = v1_ID w')
          else v1_Parent w = []"
    by (cases "own_v1 U m (Suc i)") (auto split: if_splits)
  from w c e cch nx show ?thesis by blast
qed

lemma linked_record:
  assumes lk: "linked U cache m"
    and recs: "\<forall>j<length (History m). \<exists>v. v1_at U m j = Inr v
              \<and> images ! j = Some (accepted cache (new_ImageWithMeta st v (History m ! j) (FSLayers m ! j)))"
    and i: "i < length (History m)"
  shows "\<exists>r w. images ! i = Some r \<and> own_v1 U m i = Inr w \<and> ID r = v1_ID w
     \<and> Parent r = (if v1_Parent w = [] then ''scratch'' else v1_Parent w)"
proof -
  from linked_at [OF lk i] obtain w where w: "own_v1 U m i = Inr w"
    and c: "carries_own U m i"
    and cch: "\<forall>c. cache (v1_ID w) = Some c \<and> \<not> Downloading c \<longrightarrow>
              ID c = v1_ID w \<and> Parent c = (if v1_Parent w = [] then ''scratch'' else v1_Parent w)"
    by blast
  from recs i obtain v where v: "v1_at U m i = Inr v"
    and r: "images ! i = Some (accepted cache (new_ImageWithMeta st v (History m ! i) (FSLayers m ! i)))"
    by blast
  let ?fresh = "new_ImageWithMeta st w (History m ! i) (FSLayers m ! i)"
  from carries_own_record [OF c v, of st "History m ! i" "FSLayers m ! i"] w
  have f: "new_ImageWithMeta st v (History m ! i) (FSLayers m ! i) = ?fresh" by simp
  have fid: "ID ?fresh = v1_ID w"
    and fp: "Parent ?fresh = (if v1_Parent w = [] then ''scratch'' else v1_Parent w)"
    by (simp_all add: new_ImageWithMeta_def)
  from accepted_cases [of cache ?fresh]
  have "ID (accepted cache ?fresh) = v1_ID w
      \<and> Parent (accepted cache ?fresh) = (if v1_Parent w = [] then ''scratch'' else v1_Parent w)"
  proof
    assume "accepted cache ?fresh = ?fresh"
    with fid fp show ?thesis by simp
  next
    assume "\<exists>c. cache (ID ?fresh) = Some c \<and> \<not> Downloading c \<and> accepted cache ?fresh = c"
    then obtain c where "cache (v1_ID w) = Some c" "\<not> Downloading c" "accepted cache ?fresh = c"
      using fid by auto
    with cch show ?thesis by simp
  qed
  with r f w show ?thesis by simp
qed

lemma linked_reaches:
  assumes lk: "linked U cache m"
    and len: "length images = length (History m)"
    and recs: "\<forall>j<length (History m). \<exists>v. v1_at U m j = Inr v
              \<and> images ! j = Some (accepted cache (new_ImageWithMeta st v (History m ! j) (FSLayers m ! j)))"
    and d: "i + d = length (History m)" and pos: "0 < d"
  shows "\<exists>r. images ! i = Some r \<and> reaches_scratch (records images) d r"
  using d pos
proof (induction d arbitrary: i)
  case 0
  then show ?case by simp
next
  case (Suc d)
  let ?n = "length (History m)"
  have i: "i < ?n" using Suc.prems by simp
  from linked_record [OF lk recs i] obtain r w where r: "images ! i = Some r"
    and w: "own_v1 U m i = Inr w" and rid: "ID r = v1_ID w"
    and rp: "Parent r = (if v1_Parent w = [] then ''scratch'' else v1_Parent w)"
    by blast
  from linked_at [OF lk i] w
  have nx: "if Suc i < ?n then (\<exists>w'. own_v1 U m (Suc i) = Inr w' \<and> v1_Parent w = v1_ID w')
          else v1_Parent w = []"
    by auto
  show ?case
  proof (cases "Parent r = ''scratch''")
    case True
    with r show ?thesis by simp
  next
    case False
    with rp have pne: "v1_Parent w \<noteq> []" and pw: "Parent r = v1_Parent w"
      by (auto split: if_splits)
    with nx have si: "Suc i < ?n" by (auto split: if_splits)
    with nx obtain w' where w': "own_v1 U m (Suc i) = Inr w'" and link: "v1_Parent w = v1_ID w'"
      by auto
    from si Suc.prems have "Suc i + d = ?n" "0 < d" by simp_all
    from Suc.IH [OF this] obtain r' where r': "images ! Suc i = Some r'"
      and reach: "reaches_scratch (records images) d r'" by blast
    from linked_record [OF lk recs si] r' w' have idr': "ID r' = v1_ID w'" by auto
    have mem: "r' \<in> set (records images)"
      using r' si len by (intro records_member) simp_all
    have ex: "list_ex (\<lambda>x. ID x = Parent r) (records images)"
      using mem idr' pw link by (auto simp: list_ex_iff)
    have only: "reaches_scratch (records images) d x"
      if x: "x \<in> set (records images)" and xid: "ID x = Parent r" for x
    proof -
      from records_nth [OF x] obtain j where j: "j < length images" and xj: "images ! j = Some x"
        by blast
      from j len have jn: "j < ?n" by simp
      from linked_record [OF lk recs jn] xj obtain wj where wj: "own_v1 U m j = Inr wj"
        and xw: "ID x = v1_ID wj" by auto
      have ej: "entry_id U (History m ! j) = v1_ID wj"
        using wj by (simp add: entry_id_def own_v1_def)
      have es: "entry_id U (History m ! Suc i) = v1_ID w'"
        using w' by (simp add: entry_id_def own_v1_def)
      have dist: "distinct (map (entry_id U) (History m))"
        using lk by (simp add: linked_def)
      have eq: "map (entry_id U) (History m) ! j = map (entry_id U) (History m) ! Suc i"
        using jn si ej es xw xid pw link by simp
      have "j = Suc i"
        using nth_eq_iff_index_eq [OF dist, of j "Suc i"] eq jn si by simp
      with xj r' have "x = r'" by simp
      with reach show ?thesis by simp
    qed
    from ex only have "reaches_scratch (records images) (Suc d) r"
      by (auto simp: list_all_iff)
    with r show ?thesis by blast
  qed
qed


text \<open>
  C2, as amended. For a manifest with N history entries and N FS layers whose history
  entries all deserialize, \<^verbatim>\<open>LayersToDownload\<close> returns exactly N records. The record at
  index i is a finished cache entry, or has the document and the FS layer of the
  manifest's entries at index i and the store name. At every index where the loop
  decodes the entry with its own id and parent (\<^verbatim>\<open>carries_own\<close>), the record is the one
  built from the history and FS-layer entries of that index, or the finished cache entry
  under its id; where the cache has no finished entry, the record has the entry's id,
  the entry's parent or \<^verbatim>\<open>scratch\<close> when that is empty, the store name, and the entry's
  document and FS layer. When the entries form a chain in front of an agreeing cache
  (\<^verbatim>\<open>linked\<close>), the parent chain of every record, followed by id, reaches \<^verbatim>\<open>scratch\<close>
  within N hops.
\<close>

theorem LayersToDownload_aligned:
  assumes m: "ImageManifestSchema1 ic = Some m"
    and len: "length (FSLayers m) = length (History m)"
    and dec: "v1_at U m 0 = Inr v0"
  shows "\<exists>images. LayersToDownload U cache ic = Inr images
     \<and> length images = length (History m)
     \<and> (\<forall>i<length (History m). \<exists>r. images ! i = Some r
          \<and> ((\<exists>k. cache k = Some r \<and> \<not> Downloading r)
             \<or> (Meta r = V1Compatibility (History m ! i) \<and> Layer r = FSLayers m ! i
                \<and> Store r = Storename ic)))
     \<and> (\<forall>i<length (History m). carries_own U m i \<longrightarrow>
          (\<exists>w. own_v1 U m i = Inr w
             \<and> images ! i = Some (accepted cache
                  (new_ImageWithMeta (Storename ic) w (History m ! i) (FSLayers m ! i)))
             \<and> ((case cache (v1_ID w) of Some c \<Rightarrow> Downloading c | None \<Rightarrow> True) \<longrightarrow>
                  images ! i = Some \<lparr>ID = v1_ID w,
                    Parent = (if v1_Parent w = [] then ''scratch'' else v1_Parent w),
                    Store = Storename ic, DiffID = [], Layer = FSLayers m ! i,
                    Meta = V1Compatibility (History m ! i), Size = 0, Downloading = False\<rparr>)))
     \<and> (linked U cache m \<longrightarrow>
          (\<forall>i<length (History m). \<exists>r. images ! i = Some r
             \<and> reaches_scratch (records images) (length (History m)) r))"
proof -
  from LayersToDownload_returns [OF m _ dec] len
  obtain images where res: "LayersToDownload U cache ic = Inr images"
    by (metis order_refl)
  note ch = LayersToDownload_characterised [OF m res]
  have l: "length images = length (History m)" using ch len by simp
  have each: "\<forall>j<length (History m). \<exists>v. v1_at U m j = Inr v
              \<and> images ! j = Some (accepted cache (new_ImageWithMeta (Storename ic) v (History m ! j) (FSLayers m ! j)))"
    using ch by blast
  have a: "\<exists>r. images ! i = Some r
          \<and> ((\<exists>k. cache k = Some r \<and> \<not> Downloading r)
             \<or> (Meta r = V1Compatibility (History m ! i) \<and> Layer r = FSLayers m ! i
                \<and> Store r = Storename ic))"
    if "i < length (History m)" for i
  proof -
    from each that obtain v where
      r: "images ! i = Some (accepted cache (new_ImageWithMeta (Storename ic) v (History m ! i) (FSLayers m ! i)))"
      by blast
    let ?fresh = "new_ImageWithMeta (Storename ic) v (History m ! i) (FSLayers m ! i)"
    have f: "Meta ?fresh = V1Compatibility (History m ! i) \<and> Layer ?fresh = FSLayers m ! i
        \<and> Store ?fresh = Storename ic"
      by (simp add: new_ImageWithMeta_def)
    from accepted_cases [of cache ?fresh] f r show ?thesis by auto
  qed
  have b: "\<exists>w. own_v1 U m i = Inr w
             \<and> images ! i = Some (accepted cache
                  (new_ImageWithMeta (Storename ic) w (History m ! i) (FSLayers m ! i)))
             \<and> ((case cache (v1_ID w) of Some c \<Rightarrow> Downloading c | None \<Rightarrow> True) \<longrightarrow>
                  images ! i = Some \<lparr>ID = v1_ID w,
                    Parent = (if v1_Parent w = [] then ''scratch'' else v1_Parent w),
                    Store = Storename ic, DiffID = [], Layer = FSLayers m ! i,
                    Meta = V1Compatibility (History m ! i), Size = 0, Downloading = False\<rparr>)"
    if i: "i < length (History m)" and c: "carries_own U m i" for i
  proof -
    from each i obtain v where v: "v1_at U m i = Inr v"
      and r: "images ! i = Some (accepted cache (new_ImageWithMeta (Storename ic) v (History m ! i) (FSLayers m ! i)))"
      by blast
    from carries_own_record [OF c v, of "Storename ic" "History m ! i" "FSLayers m ! i"]
    obtain w where w: "own_v1 U m i = Inr w"
      and f: "new_ImageWithMeta (Storename ic) v (History m ! i) (FSLayers m ! i)
            = new_ImageWithMeta (Storename ic) w (History m ! i) (FSLayers m ! i)"
      by blast
    have "accepted cache (new_ImageWithMeta (Storename ic) w (History m ! i) (FSLayers m ! i))
        = new_ImageWithMeta (Storename ic) w (History m ! i) (FSLayers m ! i)"
      if "case cache (v1_ID w) of Some c \<Rightarrow> Downloading c | None \<Rightarrow> True"
      using that by (intro accepted_miss) (simp add: new_ImageWithMeta_def)
    then show ?thesis using w r f by (auto simp: new_ImageWithMeta_def)
  qed
  have c: "\<exists>r. images ! i = Some r \<and> reaches_scratch (records images) (length (History m)) r"
    if lk: "linked U cache m" and i: "i < length (History m)" for i
  proof -
    have "i + (length (History m) - i) = length (History m)" "0 < length (History m) - i"
      using i by simp_all
    from linked_reaches [OF lk l each this] obtain r where "images ! i = Some r"
      and "reaches_scratch (records images) (length (History m) - i) r" by blast
    then show ?thesis using reaches_scratch_mono [of "records images" "length (History m) - i" r "length (History m)"]
      by auto
  qed
  from res l a b c show ?thesis by blast
qed

lemma own_two:
  "own_v1 example_Unmarshal manifest_two 0 =
      Inr (V1Image_zero\<lparr>v1_ID := ''top'', v1_Parent := ''base'',
        v1_ContainerConfig := \<lparr>Cmd = [''/bin/sh'', ''-c'', ''#(nop) CMD [sh]''], ConfigRest = []\<rparr>\<rparr>)"
  "own_v1 example_Unmarshal manifest_two (Suc 0) =
      Inr (V1Image_zero\<lparr>v1_ID := ''base'',
        v1_ContainerConfig := \<lparr>Cmd = [''/bin/sh'', ''-c'', ''#(nop) ADD file in /''], ConfigRest = []\<rparr>\<rparr>)"
  by (simp_all add: own_v1_def manifest_two_def example_Unmarshal_def example_docs V1Image_zero_def)

lemma at_two:
  "v1_at example_Unmarshal manifest_two 0 =
      Inr (V1Image_zero\<lparr>v1_ID := ''top'', v1_Parent := ''base'',
        v1_ContainerConfig := \<lparr>Cmd = [''/bin/sh'', ''-c'', ''#(nop) CMD [sh]''], ConfigRest = []\<rparr>\<rparr>)"
  "v1_at example_Unmarshal manifest_two (Suc 0) =
      Inr (V1Image_zero\<lparr>v1_ID := ''base'',
        v1_ContainerConfig := \<lparr>Cmd = [''/bin/sh'', ''-c'', ''#(nop) ADD file in /''], ConfigRest = []\<rparr>\<rparr>)"
  by (simp_all add: v1_at_def manifest_two_def example_Unmarshal_def example_docs V1Image_zero_def)

lemma linked_two: "linked example_Unmarshal example_cache manifest_two"
proof -
  have n: "length (History manifest_two) = Suc (Suc 0)" by (simp add: manifest_two_def)
  have d: "distinct (map (entry_id example_Unmarshal) (History manifest_two))"
    by (simp add: manifest_two_def entry_id_def example_Unmarshal_def example_docs V1Image_zero_def)
  have c: "carries_own example_Unmarshal manifest_two 0"
    "carries_own example_Unmarshal manifest_two (Suc 0)"
    by (simp_all add: carries_own_def own_two at_two V1Image_zero_def)
  show ?thesis
    unfolding linked_def n
    by (simp add: All_less_Suc d [unfolded n] c own_two V1Image_zero_def example_cache_def
        cached_base_def cached_top_def d)
qed

text \<open>
  The witness: the two linked layers, in front of a cache that holds a finished record
  for the older one and a record in download for the newer one.
\<close>

theorem LayersToDownload_aligned_witness:
  "length (FSLayers manifest_two) = length (History manifest_two)
   \<and> linked example_Unmarshal example_cache manifest_two
   \<and> LayersToDownload example_Unmarshal example_cache (puller manifest_two)
       = Inr [Some fresh_top, Some cached_base]
   \<and> reaches_scratch [fresh_top, cached_base] 2 fresh_top
   \<and> reaches_scratch [fresh_top, cached_base] 2 cached_base"
proof -
  have m: "ImageManifestSchema1 (puller manifest_two) = Some manifest_two"
    by (simp add: puller_def new_ImageC_def)
  have len: "length (FSLayers manifest_two) = length (History manifest_two)"
    by (simp add: manifest_two_def)
  have n: "length (History manifest_two) = 2" by (simp add: manifest_two_def)
  have recs: "records [Some fresh_top, Some cached_base] = [fresh_top, cached_base]"
    by (simp add: records_def map_filter_def)
  from LayersToDownload_aligned [OF m len at_two(1), of example_cache] example_two_run linked_two
  have all: "\<forall>i<Suc (Suc 0). \<exists>r. [Some fresh_top, Some cached_base] ! i = Some r
      \<and> reaches_scratch [fresh_top, cached_base] 2 r"
    by (simp add: n recs)
  from all [rule_format, of 0] all [rule_format, of "Suc 0"]
  have "reaches_scratch [fresh_top, cached_base] 2 fresh_top
      \<and> reaches_scratch [fresh_top, cached_base] 2 cached_base"
    by simp
  with len linked_two example_two_run show ?thesis by simp
qed

text \<open>
  C2 as stated fails. A single entry that names itself as parent gives one record whose
  chain never reaches \<^verbatim>\<open>scratch\<close>; so do two entries with one id, the newer naming that
  id as its parent, since the chain by id comes back to the newer record. A manifest with
  an FS layer and no history gives one (nil) slot for zero history entries; a finished
  cache entry replaces the record built from the manifest, parent and document
  included; an entry that does not deserialize gives an error and no records. And a
  newer entry without a parent key, above an older entry with one, gets the older
  entry's parent instead of \<^verbatim>\<open>scratch\<close>, because the loop decodes into one variable.
\<close>

theorem LayersToDownload_counterexample:
  "LayersToDownload example_Unmarshal Map.empty (puller manifest_self) = Inr [Some fresh_self]
   \<and> length (History manifest_self) = 1
   \<and> Parent fresh_self = ''a''
   \<and> \<not> reaches_scratch [fresh_self] 1 fresh_self
   \<and> LayersToDownload example_Unmarshal Map.empty (puller manifest_twice)
       = Inr [Some fresh_self, Some twice_root]
   \<and> \<not> reaches_scratch [fresh_self, twice_root] 2 fresh_self
   \<and> LayersToDownload example_Unmarshal Map.empty (puller manifest_short) = Inr [None]
   \<and> length (History manifest_short) = 0
   \<and> LayersToDownload example_Unmarshal [''a'' \<mapsto> cached_other] (puller manifest_self)
       = Inr [Some cached_other]
   \<and> Parent cached_other = ''elsewhere''
   \<and> Meta cached_other \<noteq> V1Compatibility (History manifest_self ! 0)
   \<and> LayersToDownload example_Unmarshal Map.empty (puller manifest_broken)
       = Inl (Error ''Failed to unmarshall image history: invalid character looking for beginning of value'')
   \<and> LayersToDownload example_Unmarshal Map.empty (puller manifest_stale)
       = Inr [Some stale_base, Some stale_top]
   \<and> (case own_v1 example_Unmarshal manifest_stale 0 of
         Inl err \<Rightarrow> False | Inr w \<Rightarrow> v1_ID w = ''base'' \<and> v1_Parent w = [])
   \<and> Parent stale_base = ''base''"
proof -
  have a: "LayersToDownload example_Unmarshal Map.empty (puller manifest_self) = Inr [Some fresh_self]"
    by (simp add: LayersToDownload_def puller_def new_ImageC_def manifest_self_def
        example_Unmarshal_def example_docs V1Image_zero_def new_ImageWithMeta_def fresh_self_def)
  have b: "\<not> reaches_scratch [fresh_self] 1 fresh_self"
    by (simp add: fresh_self_def)
  have c: "LayersToDownload example_Unmarshal Map.empty (puller manifest_short) = Inr [None]"
    by (simp add: LayersToDownload_def puller_def new_ImageC_def manifest_short_def)
  have d: "LayersToDownload example_Unmarshal [''a'' \<mapsto> cached_other] (puller manifest_self)
       = Inr [Some cached_other]"
    by (simp add: LayersToDownload_def puller_def new_ImageC_def manifest_self_def
        example_Unmarshal_def example_docs V1Image_zero_def new_ImageWithMeta_def cached_other_def)
  have e: "LayersToDownload example_Unmarshal Map.empty (puller manifest_broken)
       = Inl (Error ''Failed to unmarshall image history: invalid character looking for beginning of value'')"
    by (simp add: LayersToDownload_def puller_def new_ImageC_def manifest_broken_def
        example_Unmarshal_def example_docs)
  have f: "Meta cached_other \<noteq> V1Compatibility (History manifest_self ! 0)"
    by (simp add: cached_other_def manifest_self_def example_docs)
  have g: "LayersToDownload example_Unmarshal Map.empty (puller manifest_stale)
       = Inr [Some stale_base, Some stale_top]"
    by (simp add: LayersToDownload_def puller_def new_ImageC_def manifest_stale_def
        numeral_2_eq_2 example_Unmarshal_def example_docs V1Image_zero_def
        new_ImageWithMeta_def stale_base_def stale_top_def)
  have h: "case own_v1 example_Unmarshal manifest_stale 0 of
         Inl err \<Rightarrow> False | Inr w \<Rightarrow> v1_ID w = ''base'' \<and> v1_Parent w = []"
    by (simp add: own_v1_def manifest_stale_def example_Unmarshal_def example_docs V1Image_zero_def)
  have i: "LayersToDownload example_Unmarshal Map.empty (puller manifest_twice)
       = Inr [Some fresh_self, Some twice_root]"
    by (simp add: LayersToDownload_def puller_def new_ImageC_def manifest_twice_def
        numeral_2_eq_2 example_Unmarshal_def example_docs V1Image_zero_def
        new_ImageWithMeta_def fresh_self_def twice_root_def)
  have j: "\<not> reaches_scratch [fresh_self, twice_root] 2 fresh_self"
    by (simp add: fresh_self_def twice_root_def numeral_2_eq_2)
  from a b c d e f g h i j show ?thesis
    by (simp add: manifest_self_def manifest_short_def fresh_self_def cached_other_def
        stale_base_def)
qed

section \<open>Properties of CreateImageConfig\<close>

lemma config_loop_flags:
  assumes "list_all2 same_but_Downloading layers layers'"
  shows "config_loop U layers' st = config_loop U layers st"
  using assms
proof (induction layers layers' arbitrary: st rule: list_all2_induct)
  case Nil
  then show ?case by simp
next
  case (Cons r rs r' rs')
  from Cons.hyps(1) have "Meta r' = Meta r" "DiffID r' = DiffID r" "Size r' = Size r"
    unfolding same_but_Downloading_def by (metis ImageWithMeta.select_convs ImageWithMeta.surjective ImageWithMeta.update_convs)+
  then show ?case using Cons.IH by (simp add: Let_def split: sum.splits)
qed

lemma config_loop_history:
  assumes "config_loop U layers st = Inr st'"
  shows "map EmptyLayer (cs_history st') =
           map EmptyLayer (cs_history st) @ map (\<lambda>r. DiffID r = DigestSHA256EmptyTar) layers
       \<and> DiffIDs (cs_rootFS st') =
           DiffIDs (cs_rootFS st) @ map DiffID (filter (\<lambda>r. DiffID r \<noteq> DigestSHA256EmptyTar) layers)"
  using assms
proof (induction layers arbitrary: st)
  case Nil
  then show ?case by simp
next
  case (Cons r rs)
  from Cons.prems obtain img where u: "U (Meta r) (cs_image st) = Inr img"
    by (auto split: sum.splits)
  show ?case
  proof (cases "DiffID r = DigestSHA256EmptyTar")
    case True
    with Cons.prems u Cons.IH show ?thesis by (simp add: Let_def)
  next
    case False
    with Cons.prems u Cons.IH show ?thesis by (simp add: Let_def)
  qed
qed


lemma same_but_Downloading_fields:
  assumes "same_but_Downloading r r'"
  shows "ID r' = ID r" and "Meta r' = Meta r" and "DiffID r' = DiffID r" and "Size r' = Size r"
proof -
  from assms have e: "r' = r\<lparr>Downloading := Downloading r'\<rparr>"
    by (simp add: same_but_Downloading_def)
  show "ID r' = ID r" by (subst e) simp
  show "Meta r' = Meta r" by (subst e) simp
  show "DiffID r' = DiffID r" by (subst e) simp
  show "Size r' = Size r" by (subst e) simp
qed

lemma CreateImageConfig_computed:
  assumes "CreateImageConfig L G C ic (newest # rest) = Inr cfg"
    and "C (G (ID newest)) = None"
  shows "\<exists>st bytes. config_loop (Unmarshal L) (rev (newest # rest)) config_init = Inr st
       \<and> MarshalJSON L (result_document st) = Inr bytes
       \<and> cfg_ImageID cfg = sha256_hex L bytes
       \<and> cfg_History cfg = cs_history st"
  using assms
  by (auto simp: CreateImageConfig_def Let_def split: sum.splits option.splits)

lemma config_loop_length:
  assumes "config_loop U layers st = Inr st'"
  shows "length (cs_history st') = length (cs_history st) + length layers"
  using config_loop_history [OF assms, THEN conjunct1, THEN arg_cong, of length]
  by simp

text \<open>
  C1. The image ID that \<^verbatim>\<open>CreateImageConfig\<close> computes is a function of the chain's
  content. For two chains that agree in every field of every record but the in-progress
  flag, the function returns the same result against the same caches and options; and
  whenever both computations run (no cached configuration short-circuits them), then
  whatever the options and the caches of the two calls, the two image IDs are equal: the
  SHA-256 text of the serialised document built from the chain.
\<close>

theorem CreateImageConfig_deterministic:
  assumes same: "list_all2 same_but_Downloading images images'"
  shows "CreateImageConfig L G C ic images' = CreateImageConfig L G C ic images
       \<and> (\<forall>newest rest newest' rest' cfg cfg'.
            images = newest # rest \<and> images' = newest' # rest'
            \<and> C (G (ID newest)) = None \<and> C' (G' (ID newest')) = None
            \<and> CreateImageConfig L G C ic images = Inr cfg
            \<and> CreateImageConfig L G' C' ic' images' = Inr cfg'
            \<longrightarrow> cfg_ImageID cfg' = cfg_ImageID cfg)"
proof -
  have loop: "config_loop U (rev images') st = config_loop U (rev images) st" for U st
    using same by (intro config_loop_flags) simp
  have a: "CreateImageConfig L G C ic images' = CreateImageConfig L G C ic images"
  proof (cases images)
    case Nil
    with same show ?thesis by simp
  next
    case (Cons newest rest)
    with same obtain newest' rest' where c': "images' = newest' # rest'"
      and t: "same_but_Downloading newest newest'"
      by (auto simp: list_all2_Cons1)
    have i: "ID newest' = ID newest" using same_but_Downloading_fields(1) [OF t] .
    have l: "config_loop (Unmarshal L) (rev (newest' # rest')) config_init
           = config_loop (Unmarshal L) (rev (newest # rest)) config_init"
      using loop [of "Unmarshal L" config_init] unfolding Cons c' .
    show ?thesis
      unfolding CreateImageConfig_def Cons c' list.case i l ..
  qed
  have b: "cfg_ImageID cfg' = cfg_ImageID cfg"
    if "images = newest # rest" "images' = newest' # rest'"
      "C (G (ID newest)) = None" "C' (G' (ID newest')) = None"
      "CreateImageConfig L G C ic images = Inr cfg"
      "CreateImageConfig L G' C' ic' images' = Inr cfg'"
    for newest rest newest' rest' cfg cfg'
  proof -
    from CreateImageConfig_computed [of L G C ic newest rest cfg] that
    obtain st bytes where 1: "config_loop (Unmarshal L) (rev images) config_init = Inr st"
      "MarshalJSON L (result_document st) = Inr bytes" "cfg_ImageID cfg = sha256_hex L bytes"
      by auto
    from CreateImageConfig_computed [of L G' C' ic' newest' rest' cfg'] that
    obtain st' bytes' where 2: "config_loop (Unmarshal L) (rev images') config_init = Inr st'"
      "MarshalJSON L (result_document st') = Inr bytes'" "cfg_ImageID cfg' = sha256_hex L bytes'"
      by auto
    from 1(1) 2(1) loop have "st' = st" by simp
    with 1 2 show ?thesis by simp
  qed
  from a b show ?thesis by blast
qed

text \<open>
  C3. When \<^verbatim>\<open>CreateImageConfig\<close> computes a configuration for a chain, the document it
  hashes has one history entry per record, in the order oldest to newest; the entry of a
  record is marked as an empty layer exactly when the record's diff ID is the empty-layer
  digest; and the root file system's diff IDs are the diff IDs of the other records, one
  each, oldest to newest. The history returned is the history of that document.
\<close>

theorem CreateImageConfig_empty_layers:
  assumes run: "CreateImageConfig L G C ic (newest # rest) = Inr cfg"
    and miss: "C (G (ID newest)) = None"
  shows "\<exists>st bytes. config_loop (Unmarshal L) (rev (newest # rest)) config_init = Inr st
       \<and> MarshalJSON L (result_document st) = Inr bytes
       \<and> cfg_ImageID cfg = sha256_hex L bytes
       \<and> cfg_History cfg = img_History (result_document st)
       \<and> length (img_History (result_document st)) = length (newest # rest)
       \<and> map EmptyLayer (img_History (result_document st)) =
           map (\<lambda>r. DiffID r = DigestSHA256EmptyTar) (rev (newest # rest))
       \<and> DiffIDs (img_RootFS (result_document st)) =
           map DiffID (filter (\<lambda>r. DiffID r \<noteq> DigestSHA256EmptyTar) (rev (newest # rest)))"
proof -
  from CreateImageConfig_computed [OF run miss]
  obtain st bytes where l: "config_loop (Unmarshal L) (rev (newest # rest)) config_init = Inr st"
    and m: "MarshalJSON L (result_document st) = Inr bytes"
    and i: "cfg_ImageID cfg = sha256_hex L bytes"
    and h: "cfg_History cfg = cs_history st"
    by blast
  have d: "img_History (result_document st) = cs_history st"
    "img_RootFS (result_document st) = cs_rootFS st"
    by (simp_all add: result_document_def Let_def)
  from config_loop_history [OF l] config_loop_length [OF l]
  have "length (cs_history st) = length (newest # rest)"
    and "map EmptyLayer (cs_history st) = map (\<lambda>r. DiffID r = DigestSHA256EmptyTar) (rev (newest # rest))"
    and "DiffIDs (cs_rootFS st) =
           map DiffID (filter (\<lambda>r. DiffID r \<noteq> DigestSHA256EmptyTar) (rev (newest # rest)))"
    by (simp_all add: config_init_def NewRootFS_def)
  with l m i h d show ?thesis by auto
qed

lemmas example_records = fresh_top_def fresh_base_def doc_top_def doc_base_def doc_self_def doc_a_def

lemma chain_two_loop:
  "config_loop example_Unmarshal (rev chain_two) config_init =
     Inr \<lparr>cs_image = V1Image_zero\<lparr>v1_ID := ''top'', v1_Parent := ''base'',
            v1_ContainerConfig := \<lparr>Cmd = [''/bin/sh'', ''-c'', ''#(nop) CMD [sh]''], ConfigRest = []\<rparr>\<rparr>,
          cs_rootFS = \<lparr>rootfs_Type = ''layers'', DiffIDs = [''sha256:dddd'']\<rparr>,
          cs_history = [\<lparr>h_Created = [], h_Author = [], h_CreatedBy = ''/bin/sh -c #(nop) ADD file in /'',
                          h_Comment = [], EmptyLayer = False\<rparr>,
                        \<lparr>h_Created = [], h_Author = [], h_CreatedBy = ''/bin/sh -c #(nop) CMD [sh]'',
                          h_Comment = [], EmptyLayer = True\<rparr>],
          cs_size = 1056\<rparr>"
  by (simp add: chain_two_def config_init_def NewRootFS_def example_Unmarshal_def
      example_records V1Image_zero_def DigestSHA256EmptyTar_def)


lemma CreateImageConfig_miss:
  assumes "C (G (ID newest)) = None"
    and "config_loop (Unmarshal L) (rev (newest # rest)) config_init = Inr st"
    and "MarshalJSON L (result_document st) = Inr bytes"
    and "ImageManifestSchema1 ic = Some m"
  shows "CreateImageConfig L G C ic (newest # rest) =
     Inr \<lparr>cfg_V1Image = (img_V1Image (result_document st))\<lparr>v1_Parent := v1_Parent (cs_image st),
             v1_Size := cs_size st, v1_ID := ID newest\<rparr>,
          cfg_ImageID = sha256_hex L bytes,
          Digests = [ManifestDigest ic], Tags = [Tag ic],
          cfg_Name = Name m, cfg_DiffIDs = Map.empty,
          cfg_History = cs_history st, cfg_Reference = Reference ic\<rparr>"
  using assms by (simp add: CreateImageConfig_def Let_def)

lemma chain_two_run:
  "CreateImageConfig example_codec (\<lambda>layer. []) Map.empty (puller manifest_two) chain_two
     = Inr chain_two_config"
proof -
  have l: "config_loop (Unmarshal example_codec)
      (rev (fresh_top\<lparr>DiffID := DigestSHA256EmptyTar, Size := 32\<rparr> #
       [fresh_base\<lparr>DiffID := ''sha256:dddd'', Size := 1024\<rparr>])) config_init = Inr
        \<lparr>cs_image = V1Image_zero\<lparr>v1_ID := ''top'', v1_Parent := ''base'',
            v1_ContainerConfig := \<lparr>Cmd = [''/bin/sh'', ''-c'', ''#(nop) CMD [sh]''], ConfigRest = []\<rparr>\<rparr>,
          cs_rootFS = \<lparr>rootfs_Type = ''layers'', DiffIDs = [''sha256:dddd'']\<rparr>,
          cs_history = [\<lparr>h_Created = [], h_Author = [], h_CreatedBy = ''/bin/sh -c #(nop) ADD file in /'',
                          h_Comment = [], EmptyLayer = False\<rparr>,
                        \<lparr>h_Created = [], h_Author = [], h_CreatedBy = ''/bin/sh -c #(nop) CMD [sh]'',
                          h_Comment = [], EmptyLayer = True\<rparr>],
          cs_size = 1056\<rparr>"
    using chain_two_loop unfolding chain_two_def by (simp add: example_codec_def)
  have m: "MarshalJSON example_codec (result_document
        \<lparr>cs_image = V1Image_zero\<lparr>v1_ID := ''top'', v1_Parent := ''base'',
            v1_ContainerConfig := \<lparr>Cmd = [''/bin/sh'', ''-c'', ''#(nop) CMD [sh]''], ConfigRest = []\<rparr>\<rparr>,
          cs_rootFS = \<lparr>rootfs_Type = ''layers'', DiffIDs = [''sha256:dddd'']\<rparr>,
          cs_history = [\<lparr>h_Created = [], h_Author = [], h_CreatedBy = ''/bin/sh -c #(nop) ADD file in /'',
                          h_Comment = [], EmptyLayer = False\<rparr>,
                        \<lparr>h_Created = [], h_Author = [], h_CreatedBy = ''/bin/sh -c #(nop) CMD [sh]'',
                          h_Comment = [], EmptyLayer = True\<rparr>],
          cs_size = 1056\<rparr>)
      = Inr ''diff_ids=sha256:dddd;history=/bin/sh -c #(nop) ADD file in /,/bin/sh -c #(nop) CMD [sh](empty)''"
    by (simp add: example_codec_def example_MarshalJSON_def result_document_def)
  have p: "ImageManifestSchema1 (puller manifest_two) = Some manifest_two"
    by (simp add: puller_def new_ImageC_def)
  have c: "Map.empty ((\<lambda>layer. []) (ID (fresh_top\<lparr>DiffID := DigestSHA256EmptyTar, Size := 32\<rparr>))) = None"
    by simp
  show ?thesis
    unfolding chain_two_def CreateImageConfig_miss [OF c l m p]
    by (simp add: chain_two_config_def result_document_def V1Image_zero_def example_codec_def
        puller_def new_ImageC_def manifest_two_def fresh_top_def)
qed

text \<open>The witness: the chain of the scenario, and the same chain with its top layer marked in progress.\<close>

theorem CreateImageConfig_deterministic_witness:
  "list_all2 same_but_Downloading chain_two chain_two_downloading
   \<and> CreateImageConfig example_codec (\<lambda>layer. []) Map.empty (puller manifest_two) chain_two
       = Inr chain_two_config
   \<and> CreateImageConfig example_codec (\<lambda>layer. []) Map.empty (puller manifest_two) chain_two_downloading
       = Inr chain_two_config"
proof -
  have s: "list_all2 same_but_Downloading chain_two chain_two_downloading"
    by (simp add: chain_two_def chain_two_downloading_def same_but_Downloading_def)
  from CreateImageConfig_deterministic [OF s, of example_codec "\<lambda>layer. []" Map.empty "puller manifest_two"]
  have "CreateImageConfig example_codec (\<lambda>layer. []) Map.empty (puller manifest_two) chain_two_downloading
      = CreateImageConfig example_codec (\<lambda>layer. []) Map.empty (puller manifest_two) chain_two"
    by (rule conjunct1)
  with s chain_two_run show ?thesis by simp
qed

text \<open>
  The witness is the scenario: two layers, the top one with the empty-layer digest, give
  one diff ID and a history of two entries.
\<close>

theorem CreateImageConfig_empty_layers_witness:
  "CreateImageConfig example_codec (\<lambda>layer. []) Map.empty (puller manifest_two) chain_two
     = Inr chain_two_config
   \<and> (\<exists>st bytes. config_loop example_Unmarshal (rev chain_two) config_init = Inr st
       \<and> example_MarshalJSON (result_document st) = Inr bytes
       \<and> cfg_ImageID chain_two_config = ''digest of '' @ bytes
       \<and> cfg_History chain_two_config = img_History (result_document st)
       \<and> length (img_History (result_document st)) = 2
       \<and> map EmptyLayer (img_History (result_document st)) = [False, True]
       \<and> DiffIDs (img_RootFS (result_document st)) = [''sha256:dddd''])"
proof -
  have run: "CreateImageConfig example_codec (\<lambda>layer. []) Map.empty (puller manifest_two)
      (fresh_top\<lparr>DiffID := DigestSHA256EmptyTar, Size := 32\<rparr> #
       [fresh_base\<lparr>DiffID := ''sha256:dddd'', Size := 1024\<rparr>]) = Inr chain_two_config"
    using chain_two_run unfolding chain_two_def .
  have miss: "Map.empty ((\<lambda>layer. []) (ID (fresh_top\<lparr>DiffID := DigestSHA256EmptyTar, Size := 32\<rparr>))) = None"
    by simp
  note r = CreateImageConfig_empty_layers [OF run miss, folded chain_two_def]
  have e1: "length chain_two = 2"
    by (simp add: chain_two_def)
  have e2: "map (\<lambda>r. DiffID r = DigestSHA256EmptyTar) (rev chain_two) = [False, True]"
    by (simp add: chain_two_def DigestSHA256EmptyTar_def)
  have e3: "map DiffID (filter (\<lambda>r. DiffID r \<noteq> DigestSHA256EmptyTar) (rev chain_two)) = [''sha256:dddd'']"
    by (simp add: chain_two_def DigestSHA256EmptyTar_def)
  have l: "Unmarshal example_codec = example_Unmarshal"
    "MarshalJSON example_codec = example_MarshalJSON"
    "sha256_hex example_codec = (\<lambda>b. ''digest of '' @ b)"
    by (simp_all add: example_codec_def)
  from r show ?thesis
    unfolding e1 e2 e3 l using chain_two_run by blast
qed

section \<open>Properties of updateRepositoryCache\<close>

text \<open>
  C5. \<^verbatim>\<open>updateRepositoryCache\<close> on a non-empty layer list and a reference that parses.
  The image ID is the orchestrator's, or, when that is empty, the one the repository
  cache has for the first layer's id. If it is still empty, the call fails before any
  binding: the cache is returned as it was. Otherwise the tag reference is bound first;
  if that fails, the error names the reference and nothing was bound. Then the digest
  reference \<^verbatim>\<open>name@digest\<close> is parsed and bound; if either fails, the error says which,
  and the tag binding made before is in the returned cache. After full success both references
  resolve to the image ID. The three errors are pairwise different.
\<close>

theorem updateRepositoryCache_bindings:
  assumes layers: "ImageLayers ic = Some imageLayer # others"
    and parsed: "ParseNamed (Reference ic) = Inr ref"
    and imageID: "imageID = (if ImageID ic = [] then GetImageID rc (ID imageLayer) else ImageID ic)"
    and tagged: "rc1 = rc\<lparr>references := (references rc)(RefString ref \<mapsto> imageID)\<rparr>"
    and both: "rc2 = rc1\<lparr>references := (references rc1)(RefString dig \<mapsto> imageID)\<rparr>"
  shows "(imageID = [] \<longrightarrow>
            updateRepositoryCache ParseNamed fails rc ic =
              (Some (Error (''ImageID not found by LayerID('' @ ID imageLayer @
                            '') in RepositoryCache'')), ic, rc))
       \<and> (imageID \<noteq> [] \<and> fails rc ref imageID = Some e1 \<longrightarrow>
            updateRepositoryCache ParseNamed fails rc ic =
              (Some (Error (''Unable to Add Image Reference('' @ RefString ref @ ''): '' @
                            err_Error e1)), ic\<lparr>ImageID := imageID\<rparr>, rc))
       \<and> (imageID \<noteq> [] \<and> fails rc ref imageID = None
            \<and> ParseNamed (RefName ref @ ''@'' @ ManifestDigest ic) = Inl e3 \<longrightarrow>
            updateRepositoryCache ParseNamed fails rc ic =
              (Some (Error (''Unable to parse digest: '' @ err_Error e3)),
               ic\<lparr>ImageID := imageID\<rparr>, rc1))
       \<and> (imageID \<noteq> [] \<and> fails rc ref imageID = None
            \<and> ParseNamed (RefName ref @ ''@'' @ ManifestDigest ic) = Inr dig
            \<and> fails rc1 dig imageID = Some e2 \<longrightarrow>
            updateRepositoryCache ParseNamed fails rc ic =
              (Some (Error (''Unable to Add Image Digest('' @ RefString dig @ ''): '' @
                            err_Error e2)), ic\<lparr>ImageID := imageID\<rparr>, rc1)
            \<and> references rc1 (RefString ref) = Some imageID)
       \<and> (imageID \<noteq> [] \<and> fails rc ref imageID = None
            \<and> ParseNamed (RefName ref @ ''@'' @ ManifestDigest ic) = Inr dig
            \<and> fails rc1 dig imageID = None \<longrightarrow>
            updateRepositoryCache ParseNamed fails rc ic = (None, ic\<lparr>ImageID := imageID\<rparr>, rc2)
            \<and> references rc2 (RefString ref) = Some imageID
            \<and> references rc2 (RefString dig) = Some imageID)
       \<and> Error (''Unable to Add Image Reference('' @ RefString ref @ ''): '' @ err_Error e1)
            \<noteq> Error (''Unable to Add Image Digest('' @ RefString dig @ ''): '' @ err_Error e2)
       \<and> Error (''ImageID not found by LayerID('' @ ID imageLayer @ '') in RepositoryCache'')
            \<noteq> Error (''Unable to Add Image Reference('' @ RefString ref @ ''): '' @ err_Error e1)
       \<and> Error (''ImageID not found by LayerID('' @ ID imageLayer @ '') in RepositoryCache'')
            \<noteq> Error (''Unable to Add Image Digest('' @ RefString dig @ ''): '' @ err_Error e2)"
proof -
  have a: "imageID = [] \<longrightarrow>
            updateRepositoryCache ParseNamed fails rc ic =
              (Some (Error (''ImageID not found by LayerID('' @ ID imageLayer @
                            '') in RepositoryCache'')), ic, rc)"
    using imageID tagged both layers parsed
    by (cases "ImageID ic = []")
      (simp_all add: updateRepositoryCache_def Let_def AddReference_def)
  have b: "imageID \<noteq> [] \<and> fails rc ref imageID = Some e1 \<longrightarrow>
            updateRepositoryCache ParseNamed fails rc ic =
              (Some (Error (''Unable to Add Image Reference('' @ RefString ref @ ''): '' @
                            err_Error e1)), ic\<lparr>ImageID := imageID\<rparr>, rc)"
    using imageID tagged both layers parsed
    by (cases "ImageID ic = []")
      (simp_all add: updateRepositoryCache_def Let_def AddReference_def)
  have p: "imageID \<noteq> [] \<and> fails rc ref imageID = None
            \<and> ParseNamed (RefName ref @ ''@'' @ ManifestDigest ic) = Inl e3 \<longrightarrow>
            updateRepositoryCache ParseNamed fails rc ic =
              (Some (Error (''Unable to parse digest: '' @ err_Error e3)),
               ic\<lparr>ImageID := imageID\<rparr>, rc1)"
    using imageID tagged both layers parsed
    by (cases "ImageID ic = []")
      (simp_all add: updateRepositoryCache_def Let_def AddReference_def)
  have c: "imageID \<noteq> [] \<and> fails rc ref imageID = None
            \<and> ParseNamed (RefName ref @ ''@'' @ ManifestDigest ic) = Inr dig
            \<and> fails rc1 dig imageID = Some e2 \<longrightarrow>
            updateRepositoryCache ParseNamed fails rc ic =
              (Some (Error (''Unable to Add Image Digest('' @ RefString dig @ ''): '' @
                            err_Error e2)), ic\<lparr>ImageID := imageID\<rparr>, rc1)
            \<and> references rc1 (RefString ref) = Some imageID"
    using imageID tagged both layers parsed
    by (cases "ImageID ic = []")
      (simp_all add: updateRepositoryCache_def Let_def AddReference_def)
  have d: "imageID \<noteq> [] \<and> fails rc ref imageID = None
            \<and> ParseNamed (RefName ref @ ''@'' @ ManifestDigest ic) = Inr dig
            \<and> fails rc1 dig imageID = None \<longrightarrow>
            updateRepositoryCache ParseNamed fails rc ic = (None, ic\<lparr>ImageID := imageID\<rparr>, rc2)
            \<and> references rc2 (RefString ref) = Some imageID
            \<and> references rc2 (RefString dig) = Some imageID"
    using imageID tagged both layers parsed
    by (cases "ImageID ic = []")
      (simp_all add: updateRepositoryCache_def Let_def AddReference_def)
  have e: "Error (''Unable to Add Image Reference('' @ RefString ref @ ''): '' @ err_Error e1)
            \<noteq> Error (''Unable to Add Image Digest('' @ RefString dig @ ''): '' @ err_Error e2)"
    "Error (''ImageID not found by LayerID('' @ ID imageLayer @ '') in RepositoryCache'')
            \<noteq> Error (''Unable to Add Image Reference('' @ RefString ref @ ''): '' @ err_Error e1)"
    "Error (''ImageID not found by LayerID('' @ ID imageLayer @ '') in RepositoryCache'')
            \<noteq> Error (''Unable to Add Image Digest('' @ RefString dig @ ''): '' @ err_Error e2)"
    by simp_all
  from a b p c d e show ?thesis by blast
qed


text \<open>
  The witness: an image whose ID is found through its top layer, bound under both
  references by a cache that never fails; and the same against a cache that refuses
  digest references, where the tag binding stays.
\<close>

theorem updateRepositoryCache_bindings_witness:
  "updateRepositoryCache digest_parser never_fails known_layers pulled =
     (None, pulled\<lparr>ImageID := ''image-1''\<rparr>,
      known_layers\<lparr>references :=
        [''busybox'' \<mapsto> ''image-1'', ''busybox@sha256:e3b0c44298fc1c149afbf4c8996fb92427ae41e4649b934ca495991b7852b855'' \<mapsto> ''image-1'']\<rparr>)
   \<and> updateRepositoryCache digest_parser refuse_digests known_layers pulled =
     (Some (Error ''Unable to Add Image Digest(busybox@sha256:e3b0c44298fc1c149afbf4c8996fb92427ae41e4649b934ca495991b7852b855): Cannot overwrite digest''),
      pulled\<lparr>ImageID := ''image-1''\<rparr>,
      known_layers\<lparr>references := [''busybox'' \<mapsto> ''image-1'']\<rparr>)
   \<and> references (known_layers\<lparr>references := [''busybox'' \<mapsto> ''image-1'']\<rparr>) ''busybox''
       = Some ''image-1''"
proof -
  let ?rc1 = "known_layers\<lparr>references := (references known_layers)(RefString busybox_ref \<mapsto> ''image-1'')\<rparr>"
  let ?rc2 = "?rc1\<lparr>references := (references ?rc1)(RefString busybox_digest_ref \<mapsto> ''image-1'')\<rparr>"
  have layers: "ImageLayers pulled = Some fresh_top # [Some fresh_base]"
    by (simp add: pulled_def new_ImageC_def)
  have parsed: "digest_parser (Reference pulled) = Inr busybox_ref"
    by (simp add: pulled_def new_ImageC_def digest_parser_def)
  have imageID: "''image-1'' = (if ImageID pulled = [] then GetImageID known_layers (ID fresh_top)
      else ImageID pulled)"
    by (simp add: pulled_def new_ImageC_def GetImageID_def known_layers_def fresh_top_def)
  have dig: "digest_parser (RefName busybox_ref @ ''@'' @ ManifestDigest pulled) = Inr busybox_digest_ref"
    by (simp add: pulled_def new_ImageC_def digest_parser_def busybox_ref_def)
  note t = updateRepositoryCache_bindings [where ic = pulled and imageLayer = fresh_top
      and others = "[Some fresh_base]" and ParseNamed = digest_parser and ref = busybox_ref
      and imageID = "''image-1''" and rc = known_layers and ?rc1.0 = "?rc1" and ?rc2.0 = "?rc2"
      and dig = busybox_digest_ref, OF layers parsed imageID refl refl]
  have ok: "updateRepositoryCache digest_parser never_fails known_layers pulled =
      (None, pulled\<lparr>ImageID := ''image-1''\<rparr>, ?rc2)"
    using t [where fails = never_fails] dig by (simp add: never_fails_def)
  have partial: "updateRepositoryCache digest_parser refuse_digests known_layers pulled =
      (Some (Error (''Unable to Add Image Digest('' @ RefString busybox_digest_ref @ ''): '' @
         err_Error (Error ''Cannot overwrite digest''))), pulled\<lparr>ImageID := ''image-1''\<rparr>, ?rc1)"
    using t [where fails = refuse_digests and ?e2.0 = "Error ''Cannot overwrite digest''"] dig
    by (simp add: refuse_digests_def busybox_digest_ref_def busybox_ref_def)
  have r1: "?rc1 = known_layers\<lparr>references := [''busybox'' \<mapsto> ''image-1'']\<rparr>"
    by (simp add: known_layers_def busybox_ref_def)
  have r2: "?rc2 = known_layers\<lparr>references :=
        [''busybox'' \<mapsto> ''image-1'', ''busybox@sha256:e3b0c44298fc1c149afbf4c8996fb92427ae41e4649b934ca495991b7852b855'' \<mapsto> ''image-1'']\<rparr>"
    by (simp add: known_layers_def busybox_ref_def busybox_digest_ref_def)
  from ok partial show ?thesis
    unfolding r1 r2 by (simp add: busybox_digest_ref_def)
qed

section \<open>Properties of PullImage\<close>

lemma ParseReference_keeps_schema2:
  "ImageManifestSchema2 (snd (ParseReference P ic)) = ImageManifestSchema2 ic"
  by (simp add: ParseReference_def Let_def split: sum.splits option.splits)

lemma PullImage_connect_keeps_schema2:
  assumes "PullImage_connect env ic = Inr ic1"
  shows "ImageManifestSchema2 ic1 = ImageManifestSchema2 ic"
proof -
  obtain e ic0 where p: "ParseReference (env_ParseNamed env) ic = (e, ic0)"
    by (cases "ParseReference (env_ParseNamed env) ic")
  have k: "ImageManifestSchema2 ic0 = ImageManifestSchema2 ic"
    using ParseReference_keeps_schema2 [of "env_ParseNamed env" ic] p by simp
  from assms p have "ImageManifestSchema2 ic1 = ImageManifestSchema2 ic0"
    unfolding PullImage_connect_def
    by (auto simp: Let_def split: option.splits sum.splits prod.splits if_splits error.splits)
  with k show ?thesis by simp
qed

text \<open>
  C4. Let the pull have come as far as the schema-1 manifest: the first part returned
  the \<^verbatim>\<open>ImageC\<close> \<^verbatim>\<open>ic1\<close> and the schema-1 fetch a manifest with its digest; \<^verbatim>\<open>ic2\<close> is
  \<^verbatim>\<open>ic1\<close> with both stored. If the schema-2 fetch fails, the pull is not aborted: it goes
  on to the layers with \<^verbatim>\<open>ic2\<close> (and, when the layer list is built, on to the download),
  whose schema-2 field is the one the pull started with and whose \<^verbatim>\<open>ManifestDigest\<close> is
  the schema-1 digest. If the schema-2 fetch returns a deserialized schema-2 manifest,
  the pull goes on with that manifest stored and \<^verbatim>\<open>ManifestDigest\<close> overwritten with the
  schema-2 digest.
\<close>

theorem PullImage_schema2_best_effort:
  assumes connect: "PullImage_connect env ic = Inr ic1"
    and first: "env_FetchImageManifest env (Options.truncate ic1) 1 = Inr (Schema1 schema1, digest1)"
    and ic2: "ic2 = ic1\<lparr>ImageManifestSchema1 := schema1, ManifestDigest := digest1\<rparr>"
  shows "(env_FetchImageManifest env (Options.truncate ic2) 2 = Inl err \<longrightarrow>
            PullImage env ic = PullImage_layers env ic2)
       \<and> (env_FetchImageManifest env (Options.truncate ic2) 2 = Inl err
            \<and> LayersToDownload (env_Unmarshal env) (env_LayerCache env) ic2 = Inr layers \<longrightarrow>
            PullImage env ic = env_DownloadLayers env (ic2\<lparr>ImageLayers := layers\<rparr>))
       \<and> ImageManifestSchema2 ic2 = ImageManifestSchema2 ic
       \<and> ManifestDigest ic2 = digest1
       \<and> (env_FetchImageManifest env (Options.truncate ic2) 2 = Inr (Schema2 schema2, digest2) \<longrightarrow>
            PullImage env ic =
              PullImage_layers env (ic2\<lparr>ImageManifestSchema2 := schema2, ManifestDigest := digest2\<rparr>)
            \<and> ManifestDigest (ic2\<lparr>ImageManifestSchema2 := schema2, ManifestDigest := digest2\<rparr>) = digest2)"
proof -
  have a: "PullImage env ic = PullImage_layers env ic2"
    if "env_FetchImageManifest env (Options.truncate ic2) 2 = Inl err"
    using that connect first unfolding ic2
    by (simp add: PullImage_def PullImage_manifests_def)
  have b: "PullImage env ic = env_DownloadLayers env (ic2\<lparr>ImageLayers := layers\<rparr>)"
    if "env_FetchImageManifest env (Options.truncate ic2) 2 = Inl err"
      and "LayersToDownload (env_Unmarshal env) (env_LayerCache env) ic2 = Inr layers"
    using a [OF that(1)] that(2) by (simp add: PullImage_layers_def)
  have c: "ImageManifestSchema2 ic2 = ImageManifestSchema2 ic"
    using PullImage_connect_keeps_schema2 [OF connect] by (simp add: ic2)
  have d: "ManifestDigest ic2 = digest1" by (simp add: ic2)
  have e: "PullImage env ic =
              PullImage_layers env (ic2\<lparr>ImageManifestSchema2 := schema2, ManifestDigest := digest2\<rparr>)"
    if "env_FetchImageManifest env (Options.truncate ic2) 2 = Inr (Schema2 schema2, digest2)"
    using that connect first unfolding ic2
    by (simp add: PullImage_def PullImage_manifests_def)
  from a b c d e show ?thesis by simp
qed

lemma connect_example: "PullImage_connect schema1_only (new_ImageC ''busybox'') = Inr connected"
  by (simp add: PullImage_connect_def schema1_only_def ParseReference_def scenario_parser_def
      new_ImageC_def busybox_ref_def IsNameOnly_def DefaultTag_def DefaultHostname_def
      DefaultDockerURL_def connected_def Options.truncate_def)

text \<open>
  The witness: a registry without schema 2. The pull succeeds, the schema-2 field is
  absent and the digest is the schema-1 digest.
\<close>

theorem PullImage_schema2_best_effort_witness:
  "env_FetchImageManifest schema1_only
      (Options.truncate (connected\<lparr>ImageManifestSchema1 := Some manifest_two,
          ManifestDigest := ''sha256:1111''\<rparr>)) 2 = Inl (Error ''manifest unknown'')
   \<and> PullImage schema1_only (new_ImageC ''busybox'') =
       (None, connected\<lparr>ImageManifestSchema1 := Some manifest_two,
          ManifestDigest := ''sha256:1111'', ImageLayers := [Some fresh_top, Some fresh_base]\<rparr>)
   \<and> ImageManifestSchema2 (connected\<lparr>ImageManifestSchema1 := Some manifest_two,
          ManifestDigest := ''sha256:1111''\<rparr>) = None"
proof -
  let ?ic2 = "connected\<lparr>ImageManifestSchema1 := Some manifest_two, ManifestDigest := ''sha256:1111''\<rparr>"
  have first: "env_FetchImageManifest schema1_only (Options.truncate connected) 1
      = Inr (Schema1 (Some manifest_two), ''sha256:1111'')"
    by (simp add: schema1_only_def)
  have second: "env_FetchImageManifest schema1_only (Options.truncate ?ic2) 2
      = Inl (Error ''manifest unknown'')"
    by (simp add: schema1_only_def)
  have layers: "LayersToDownload (env_Unmarshal schema1_only) (env_LayerCache schema1_only) ?ic2
      = Inr [Some fresh_top, Some fresh_base]"
    by (simp add: LayersToDownload_def connected_def new_ImageC_def manifest_two_def
      numeral_2_eq_2 example_Unmarshal_def example_docs V1Image_zero_def schema1_only_def
      new_ImageWithMeta_def fresh_base_def fresh_top_def)
  note t = PullImage_schema2_best_effort [OF connect_example first refl,
      where err = "Error ''manifest unknown''" and layers = "[Some fresh_top, Some fresh_base]"]
  from t second layers
  have "PullImage schema1_only (new_ImageC ''busybox'') =
      env_DownloadLayers schema1_only (?ic2\<lparr>ImageLayers := [Some fresh_top, Some fresh_base]\<rparr>)"
    by blast
  moreover have "ImageManifestSchema2 ?ic2 = None"
    using t by (simp add: new_ImageC_def)
  ultimately show ?thesis using second by (simp add: schema1_only_def)
qed

section \<open>Properties of DestinationDirectory\<close>

lemma split_slash_not_Nil: "split_slash s \<noteq> []"
  by (induction s) (auto split: list.splits)

lemma split_slash_no_slash: "CHR ''/'' \<notin> set s \<Longrightarrow> split_slash s = [s]"
  by (induction s) auto

lemma split_slash_append: "split_slash (a @ CHR ''/'' # b) = split_slash a @ split_slash b"
proof (induction a)
  case Nil
  then show ?case by simp
next
  case (Cons c a)
  then show ?case
    using split_slash_not_Nil [of a] by (cases "split_slash a") auto
qed

lemma split_slash_elements: "e \<in> set (split_slash s) \<Longrightarrow> CHR ''/'' \<notin> set e"
proof (induction s arbitrary: e)
  case Nil
  then show ?case by simp
next
  case (Cons c s)
  show ?case
  proof (cases "c = CHR ''/''")
    case True
    with Cons show ?thesis by auto
  next
    case False
    obtain x xs where sp: "split_slash s = x # xs"
      using split_slash_not_Nil [of s] by (cases "split_slash s") auto
    with False Cons.prems have "e = c # x \<or> e \<in> set xs" by auto
    then show ?thesis
    proof
      assume "e = c # x"
      moreover have "CHR ''/'' \<notin> set x" using Cons.IH [of x] sp by simp
      ultimately show ?thesis using False by auto
    next
      assume "e \<in> set xs"
      then show ?thesis using Cons.IH [of e] sp by simp
    qed
  qed
qed

lemma split_slash_Join:
  "L \<noteq> [] \<Longrightarrow> split_slash (strings_Join L ''/'') = concat (map split_slash L)"
proof (induction L "''/''" rule: strings_Join.induct)
  case 1
  then show ?case by simp
next
  case (2 x)
  then show ?case by simp
next
  case (3 x y ys)
  then show ?case by (simp add: split_slash_append)
qed

lemma split_slash_Join_id:
  assumes "L \<noteq> []" and "\<forall>e\<in>set L. CHR ''/'' \<notin> set e"
  shows "split_slash (strings_Join L ''/'') = L"
proof -
  have "concat (map split_slash L) = L"
    using assms(2) by (induction L) (simp_all add: split_slash_no_slash)
  with assms(1) show ?thesis by (simp add: split_slash_Join)
qed

lemma clean_elements_append:
  "clean_elements r (xs @ ys) out = clean_elements r ys (rev (clean_elements r xs out))"
  by (induction r xs out rule: clean_elements.induct) auto

lemma clean_elements_names:
  assumes "\<forall>e\<in>set es. e \<noteq> ''.'' \<and> e \<noteq> ''..''"
  shows "clean_elements r es out = rev out @ filter (\<lambda>e. e \<noteq> []) es"
  using assms by (induction es arbitrary: out) auto

lemma clean_elements_no_slash:
  assumes "\<forall>e\<in>set es. CHR ''/'' \<notin> set e" and "\<forall>e\<in>set out. CHR ''/'' \<notin> set e"
  shows "\<forall>e\<in>set (clean_elements r es out). CHR ''/'' \<notin> set e"
  using assms
proof (induction r es out rule: clean_elements.induct)
  case (1 rooted out)
  then show ?case by simp
next
  case (2 rooted e es out)
  have tl: "\<forall>e\<in>set (tl out). CHR ''/'' \<notin> set e"
    using "2.prems"(2) by (cases out) auto
  have dd: "\<forall>x\<in>set (''..'' # out). CHR ''/'' \<notin> set x"
    using "2.prems"(2) by simp
  from 2 tl dd show ?case by (auto simp del: clean_elements.simps(2) simp add: clean_elements.simps(2) [of rooted e es out])
qed


lemma names_plain: "plain_segment e \<Longrightarrow> names (e # parts) = e # names parts"
  by (simp add: names_def plain_segment_def split_slash_no_slash)

lemma names_append: "names (xs @ ys) = names xs @ names ys"
  by (simp add: names_def)

lemma plain_dot_free: "plain_segment e \<Longrightarrow> dot_free e"
  by (simp add: dot_free_def plain_segment_def split_slash_no_slash)

lemma path_Clean_form:
  assumes "s \<noteq> []"
    and "clean_elements (hd s = CHR ''/'') (split_slash s) [] = els"
    and "strings_Join els ''/'' \<noteq> []"
  shows "path_Clean s = (if hd s = CHR ''/'' then ''/'' else []) @ strings_Join els ''/''"
proof (cases "hd s = CHR ''/''")
  case True
  with assms(2) have "clean_elements True (split_slash s) [] = els" by simp
  with True assms(1) show ?thesis by (simp add: path_Clean_def Let_def)
next
  case False
  with assms(2) have "clean_elements False (split_slash s) [] = els" by simp
  with False assms(1,3) show ?thesis by (simp add: path_Clean_def Let_def)
qed

lemma path_Join_names:
  assumes first: "plain_segment c"
    and df: "list_all dot_free parts"
  shows "\<exists>rooted pre. (\<forall>e\<in>set pre. CHR ''/'' \<notin> set e)
     \<and> (\<forall>c' parts'. plain_segment c' \<and> list_all dot_free parts' \<longrightarrow>
          path_Join (dest # c' # parts') =
            (if rooted then ''/'' else []) @ strings_Join (pre @ names (c' # parts')) ''/'')"
proof -
  define rooted where "rooted = (dest \<noteq> [] \<and> hd dest = CHR ''/'')"
  define pre where "pre = (if dest = [] then [] else clean_elements rooted (split_slash dest) [])"
  have pre_ok: "\<forall>e\<in>set pre. CHR ''/'' \<notin> set e"
    unfolding pre_def using clean_elements_no_slash [of "split_slash dest" "[]" rooted]
    by (auto dest: split_slash_elements)
  have form: "path_Join (dest # c' # parts') =
            (if rooted then ''/'' else []) @ strings_Join (pre @ names (c' # parts')) ''/''"
    if c': "plain_segment c'" and df': "list_all dot_free parts'" for c' parts'
  proof -
    let ?S = "concat (map split_slash (c' # parts'))"
    have S_ok: "\<forall>e\<in>set ?S. e \<noteq> ''.'' \<and> e \<noteq> ''..''"
      using plain_dot_free [OF c'] df' by (auto simp: dot_free_def list_all_iff)
    have S_slash: "\<forall>e\<in>set ?S. CHR ''/'' \<notin> set e"
      by (auto dest: split_slash_elements)
    have N: "names (c' # parts') = filter (\<lambda>e. e \<noteq> []) ?S" by (simp add: names_def)
    have c'_in: "c' \<in> set (names (c' # parts'))" using names_plain [OF c'] by simp
    have c'_ne: "c' \<noteq> []" using c' by (simp add: plain_segment_def)
    have c'_hd: "hd c' \<noteq> CHR ''/''"
      using c' by (cases c') (auto simp: plain_segment_def)
    have out_ne: "strings_Join (pre @ names (c' # parts')) ''/'' \<noteq> []"
    proof
      assume e: "strings_Join (pre @ names (c' # parts')) ''/'' = []"
      have "\<forall>e\<in>set (pre @ names (c' # parts')). CHR ''/'' \<notin> set e"
        using pre_ok S_slash by (auto simp: N)
      moreover have "pre @ names (c' # parts') \<noteq> []" using c'_in by auto
      ultimately have "split_slash (strings_Join (pre @ names (c' # parts')) ''/'') = pre @ names (c' # parts')"
        by (rule split_slash_Join_id [rotated])
      with e have "pre @ names (c' # parts') = [[]]" by simp
      then have "set (pre @ names (c' # parts')) = {[]}" by simp
      with c'_in have "c' = []" by auto
      with c'_ne show False by simp
    qed
    show ?thesis
    proof (cases "dest = []")
      case True
      then have r: "\<not> rooted" and p: "pre = []" by (simp_all add: rooted_def pre_def)
      define s where "s = strings_Join (c' # parts') ''/''"
      have j: "path_Join (dest # c' # parts') = path_Clean s"
        using True c'_ne by (simp add: path_Join_def s_def)
      have sp: "split_slash s = ?S" unfolding s_def by (rule split_slash_Join) simp
      have s_ne: "s \<noteq> []" unfolding s_def using c'_ne by (cases parts') auto
      have s_hd: "hd s = hd c'" unfolding s_def using c'_ne by (cases parts') auto
      have nr: "(hd s = CHR ''/'') = False" using s_hd c'_hd by simp
      have cl: "clean_elements (hd s = CHR ''/'') (split_slash s) [] = pre @ names (c' # parts')"
        unfolding nr sp p using clean_elements_names [OF S_ok, of False "[]"] N by simp
      from path_Clean_form [OF s_ne cl out_ne] show ?thesis
        unfolding j nr using r by simp
    next
      case False
      define s where "s = strings_Join (dest # c' # parts') ''/''"
      have j: "path_Join (dest # c' # parts') = path_Clean s"
        using False by (simp add: path_Join_def s_def)
      have sp: "split_slash s = split_slash dest @ ?S"
        unfolding s_def using split_slash_Join [of "dest # c' # parts'"] by simp
      have s_ne: "s \<noteq> []" unfolding s_def using False by simp
      have s_hd: "hd s = hd dest" unfolding s_def using False by simp
      have rt: "(hd s = CHR ''/'') = rooted" using False s_hd by (simp add: rooted_def)
      have cl: "clean_elements (hd s = CHR ''/'') (split_slash s) [] = pre @ names (c' # parts')"
        unfolding rt sp using clean_elements_names [OF S_ok, of rooted "rev pre"] N False
        by (simp add: clean_elements_append pre_def)
      from path_Clean_form [OF s_ne cl out_ne] show ?thesis
        unfolding j rt by simp
    qed
  qed
  from pre_ok form show ?thesis by blast
qed

lemma path_Join_same_names:
  assumes c1: "plain_segment c1" and c2: "plain_segment c2"
    and p1: "list_all dot_free parts1" and p2: "list_all dot_free parts2"
    and eq: "path_Join (dest # c1 # parts1) = path_Join (dest # c2 # parts2)"
  shows "names (c1 # parts1) = names (c2 # parts2)"
proof -
  from path_Join_names [OF c1 p1, of dest] obtain rooted pre
    where pre: "\<forall>e\<in>set pre. CHR ''/'' \<notin> set e"
      and form: "\<And>c' parts'. plain_segment c' \<Longrightarrow> list_all dot_free parts' \<Longrightarrow>
          path_Join (dest # c' # parts') =
            (if rooted then ''/'' else []) @ strings_Join (pre @ names (c' # parts')) ''/''"
    by blast
  from eq form [OF c1 p1] form [OF c2 p2]
  have j: "strings_Join (pre @ names (c1 # parts1)) ''/'' = strings_Join (pre @ names (c2 # parts2)) ''/''"
    by simp
  have ok: "\<forall>e\<in>set (pre @ names (c # parts)). CHR ''/'' \<notin> set e" for c parts
    using pre by (auto simp: names_def dest: split_slash_elements)
  have ne: "pre @ names (c # parts) \<noteq> []" if "plain_segment c" for c parts
    using names_plain [OF that, of parts] by simp
  have "pre @ names (c1 # parts1) = split_slash (strings_Join (pre @ names (c1 # parts1)) ''/'')"
    using split_slash_Join_id [OF ne [OF c1] ok] by simp
  also have "\<dots> = split_slash (strings_Join (pre @ names (c2 # parts2)) ''/'')"
    using j by simp
  also have "\<dots> = pre @ names (c2 # parts2)"
    using split_slash_Join_id [OF ne [OF c2] ok] by simp
  finally show ?thesis by simp
qed


lemma names_shape:
  assumes "plain_segment s" and "plain_segment h" and "plain_segment i" and "plain_segment t"
  shows "names [s, h, p, i, t] = s # h # names [p] @ [i, t]"
proof -
  have "names [p, i, t] = names [p] @ names [i, t]"
    using names_append [of "[p]" "[i, t]"] by simp
  moreover have "names [i, t] = [i, t]"
    using assms(3,4) by (simp add: names_plain) (simp add: names_def)
  ultimately show ?thesis using assms(1,2) by (simp add: names_plain)
qed

text \<open>
  C8, as amended. \<^verbatim>\<open>DestinationDirectory\<close> is a function of the destination, the scheme,
  host and path of the parsed registry URL, the image and the tag: options that agree on
  these give the same result (last part). Two sets of options with the same destination,
  a plain scheme and components free of \<^verbatim>\<open>.\<close> and \<^verbatim>\<open>..\<close> elements yield the same path
  only if their scheme, host, path, image and tag, cut at slashes, give the same
  sequence of names. So when host, image and tag are plain segments too and the two
  paths hold equally many names, equal output paths mean equal scheme, host, image and
  tag, and paths that hold the same names.
\<close>

theorem DestinationDirectory_names:
  fixes o1 o2 :: "'a Options_scheme"
  assumes u1: "url_Parse (Registry o1) = Some u1" and u2: "url_Parse (Registry o2) = Some u2"
    and dest: "Destination o1 = Destination o2"
    and s1: "plain_segment (Scheme u1)" and s2: "plain_segment (Scheme u2)"
    and df1: "list_all dot_free [url_Host u1, url_Path u1, Image o1, Tag o1]"
    and df2: "list_all dot_free [url_Host u2, url_Path u2, Image o2, Tag o2]"
    and same: "DestinationDirectory url_Parse o1 = DestinationDirectory url_Parse o2"
  shows "names [Scheme u1, url_Host u1, url_Path u1, Image o1, Tag o1] =
         names [Scheme u2, url_Host u2, url_Path u2, Image o2, Tag o2]
       \<and> (plain_segment (url_Host u1) \<and> plain_segment (Image o1) \<and> plain_segment (Tag o1)
          \<and> plain_segment (url_Host u2) \<and> plain_segment (Image o2) \<and> plain_segment (Tag o2)
          \<and> length (names [url_Path u1]) = length (names [url_Path u2]) \<longrightarrow>
            Scheme u1 = Scheme u2 \<and> url_Host u1 = url_Host u2
            \<and> names [url_Path u1] = names [url_Path u2]
            \<and> Image o1 = Image o2 \<and> Tag o1 = Tag o2)
       \<and> (\<forall>o3 :: 'a Options_scheme.
            url_Parse (Registry o3) = Some u1 \<and> Destination o3 = Destination o1
            \<and> Image o3 = Image o1 \<and> Tag o3 = Tag o1 \<longrightarrow>
            DestinationDirectory url_Parse o3 = DestinationDirectory url_Parse o1)"
proof -
  from same u1 u2 dest
  have "path_Join (Destination o1 # Scheme u1 # [url_Host u1, url_Path u1, Image o1, Tag o1]) =
        path_Join (Destination o1 # Scheme u2 # [url_Host u2, url_Path u2, Image o2, Tag o2])"
    by (simp add: DestinationDirectory_def)
  from path_Join_same_names [OF s1 s2 df1 df2 this]
  have n: "names [Scheme u1, url_Host u1, url_Path u1, Image o1, Tag o1] =
         names [Scheme u2, url_Host u2, url_Path u2, Image o2, Tag o2]" .
  have c: "Scheme u1 = Scheme u2 \<and> url_Host u1 = url_Host u2
            \<and> names [url_Path u1] = names [url_Path u2]
            \<and> Image o1 = Image o2 \<and> Tag o1 = Tag o2"
    if "plain_segment (url_Host u1)" "plain_segment (Image o1)" "plain_segment (Tag o1)"
      "plain_segment (url_Host u2)" "plain_segment (Image o2)" "plain_segment (Tag o2)"
      "length (names [url_Path u1]) = length (names [url_Path u2])"
    using n that(7)
    unfolding names_shape [OF s1 that(1,2,3)] names_shape [OF s2 that(4,5,6)]
    by simp
  have d: "DestinationDirectory url_Parse o3 = DestinationDirectory url_Parse o1"
    if "url_Parse (Registry o3) = Some u1 \<and> Destination o3 = Destination o1
            \<and> Image o3 = Image o1 \<and> Tag o3 = Tag o1" for o3 :: "'a Options_scheme"
    using that u1 by (simp add: DestinationDirectory_def)
  from n c d show ?thesis by blast
qed

lemma dest_v2: "DestinationDirectory example_url_Parse (options_for ''https://r.io/v2'' ''busybox'' ''latest'')
    = Inr ''images/https/r.io/v2/busybox/latest''"
  by (simp add: DestinationDirectory_def example_url_Parse_def options_for_def new_ImageC_def
      path_Join_def path_Clean_def)

lemma dest_v2_slash: "DestinationDirectory example_url_Parse (options_for ''https://r.io/v2/'' ''busybox'' ''latest'')
    = Inr ''images/https/r.io/v2/busybox/latest''"
  by (simp add: DestinationDirectory_def example_url_Parse_def options_for_def new_ImageC_def
      path_Join_def path_Clean_def)

text \<open>
  The witness: one registry, written with and without a trailing slash. The paths are
  equal, and so are the names.
\<close>

theorem DestinationDirectory_names_witness:
  "DestinationDirectory example_url_Parse (options_for ''https://r.io/v2'' ''busybox'' ''latest'')
     = DestinationDirectory example_url_Parse (options_for ''https://r.io/v2/'' ''busybox'' ''latest'')
   \<and> names [''https'', ''r.io'', ''/v2'', ''busybox'', ''latest'']
     = names [''https'', ''r.io'', ''/v2/'', ''busybox'', ''latest'']
   \<and> names [''/v2''] = names [''/v2/'']"
proof -
  let ?o1 = "options_for ''https://r.io/v2'' ''busybox'' ''latest''"
  let ?o2 = "options_for ''https://r.io/v2/'' ''busybox'' ''latest''"
  let ?u1 = "\<lparr>Scheme = ''https'', url_Host = ''r.io'', url_Path = ''/v2''\<rparr>"
  let ?u2 = "\<lparr>Scheme = ''https'', url_Host = ''r.io'', url_Path = ''/v2/''\<rparr>"
  have u1: "example_url_Parse (Registry ?o1) = Some ?u1"
    by (simp add: example_url_Parse_def options_for_def new_ImageC_def)
  have u2: "example_url_Parse (Registry ?o2) = Some ?u2"
    by (simp add: example_url_Parse_def options_for_def new_ImageC_def)
  have dest: "Destination ?o1 = Destination ?o2"
    by (simp add: options_for_def)
  have s1: "plain_segment (Scheme ?u1)" and s2: "plain_segment (Scheme ?u2)"
    by (simp_all add: plain_segment_def)
  have df1: "list_all dot_free [url_Host ?u1, url_Path ?u1, Image ?o1, Tag ?o1]"
    by (simp add: dot_free_def options_for_def new_ImageC_def)
  have df2: "list_all dot_free [url_Host ?u2, url_Path ?u2, Image ?o2, Tag ?o2]"
    by (simp add: dot_free_def options_for_def new_ImageC_def)
  have same: "DestinationDirectory example_url_Parse ?o1 = DestinationDirectory example_url_Parse ?o2"
    using dest_v2 dest_v2_slash by simp
  have pl: "plain_segment (url_Host ?u1) \<and> plain_segment (Image ?o1) \<and> plain_segment (Tag ?o1)
          \<and> plain_segment (url_Host ?u2) \<and> plain_segment (Image ?o2) \<and> plain_segment (Tag ?o2)
          \<and> length (names [url_Path ?u1]) = length (names [url_Path ?u2])"
    by (simp add: plain_segment_def options_for_def new_ImageC_def names_def)
  from DestinationDirectory_names [OF u1 u2 dest s1 s2 df1 df2 same] pl same
  show ?thesis by (simp add: options_for_def new_ImageC_def)
qed

text \<open>
  C8 as stated fails: the tuples (https, r.io, /v2, library/busybox, latest) and
  (https, r.io, /v2/library, busybox, latest) are different and yield the same path.
\<close>

theorem DestinationDirectory_counterexample:
  "DestinationDirectory example_url_Parse (options_for ''https://r.io/v2'' ''library/busybox'' ''latest'')
     = Inr ''images/https/r.io/v2/library/busybox/latest''
   \<and> DestinationDirectory example_url_Parse (options_for ''https://r.io/v2/library'' ''busybox'' ''latest'')
     = Inr ''images/https/r.io/v2/library/busybox/latest''
   \<and> example_url_Parse ''https://r.io/v2''
     = Some \<lparr>Scheme = ''https'', url_Host = ''r.io'', url_Path = ''/v2''\<rparr>
   \<and> example_url_Parse ''https://r.io/v2/library''
     = Some \<lparr>Scheme = ''https'', url_Host = ''r.io'', url_Path = ''/v2/library''\<rparr>
   \<and> (''https'', ''r.io'', ''/v2'', ''library/busybox'', ''latest'')
     \<noteq> (''https'', ''r.io'', ''/v2/library'', ''busybox'', ''latest'')"
  by (simp add: DestinationDirectory_def example_url_Parse_def options_for_def new_ImageC_def
      path_Join_def path_Clean_def)

section \<open>Properties of WriteImageBlob\<close>

text \<open>
  C9. Let \<^verbatim>\<open>tree\<close> be any observation of the world that the store writer leaves alone,
  such as the destination directory with its contents. If the tar file cannot be opened
  or its size cannot be read, \<^verbatim>\<open>WriteImageBlob\<close> returns an error and the world is as it
  was; if the store writer fails, it returns an error and the observation is unchanged;
  if the write succeeds without the cleanup flag, the observation is unchanged as well.
  If the write succeeds with the cleanup flag, the result is that of \<^verbatim>\<open>os.RemoveAll\<close>
  on the destination directory. Whenever the observation has changed, the cleanup flag
  was set, the tar stream was written to the store, and the change is that of
  \<^verbatim>\<open>os.RemoveAll\<close> on the destination directory.
\<close>

theorem WriteImageBlob_cleanup:
  assumes dest: "DestinationDirectory url_Parse ic = Inr destination"
    and tar: "tar = path_Join [destination, ID img, ID img @ ''.tar'']"
    and frame: "\<And>w host i f. tree (snd (WriteImage sys w host i f)) = tree w"
  shows "(os_Open sys w tar = Inl e \<longrightarrow>
            WriteImageBlob sys url_Parse ic img cleanup w =
              (Some (Error (''Failed to open file: '' @ err_Error e)), w))
       \<and> (os_Open sys w tar = Inr f \<and> file_Stat sys w f = Inl e \<longrightarrow>
            WriteImageBlob sys url_Parse ic img cleanup w =
              (Some (Error (''Failed to stat file: '' @ err_Error e)), w))
       \<and> (os_Open sys w tar = Inr f \<and> file_Stat sys w f = Inr n
            \<and> WriteImage sys w (Host ic) img f = (Some e, w1) \<longrightarrow>
            WriteImageBlob sys url_Parse ic img cleanup w =
              (Some (Error (''Failed to write to image store: '' @ err_Error e)), w1)
            \<and> tree w1 = tree w)
       \<and> (os_Open sys w tar = Inr f \<and> file_Stat sys w f = Inr n
            \<and> WriteImage sys w (Host ic) img f = (None, w1) \<and> \<not> cleanup \<longrightarrow>
            WriteImageBlob sys url_Parse ic img cleanup w = (None, w1) \<and> tree w1 = tree w)
       \<and> (os_Open sys w tar = Inr f \<and> file_Stat sys w f = Inr n
            \<and> WriteImage sys w (Host ic) img f = (None, w1) \<and> cleanup \<longrightarrow>
            WriteImageBlob sys url_Parse ic img cleanup w =
              (case os_RemoveAll sys w1 destination of
                 (Some err, w2) \<Rightarrow>
                   (Some (Error (''Failed to remove download directory: '' @ err_Error err)), w2)
               | (None, w2) \<Rightarrow> (None, w2)))
       \<and> (tree (snd (WriteImageBlob sys url_Parse ic img cleanup w)) \<noteq> tree w \<longrightarrow>
            cleanup \<and>
            (\<exists>f n w1. os_Open sys w tar = Inr f \<and> file_Stat sys w f = Inr n
               \<and> WriteImage sys w (Host ic) img f = (None, w1)
               \<and> snd (WriteImageBlob sys url_Parse ic img cleanup w) =
                   snd (os_RemoveAll sys w1 destination)))"
proof -
  have a: "WriteImageBlob sys url_Parse ic img cleanup w =
              (Some (Error (''Failed to open file: '' @ err_Error e)), w)"
    if "os_Open sys w tar = Inl e"
    using that dest unfolding tar by (simp add: WriteImageBlob_def)
  have b: "WriteImageBlob sys url_Parse ic img cleanup w =
              (Some (Error (''Failed to stat file: '' @ err_Error e)), w)"
    if "os_Open sys w tar = Inr f" "file_Stat sys w f = Inl e"
    using that dest unfolding tar by (simp add: WriteImageBlob_def)
  have c: "WriteImageBlob sys url_Parse ic img cleanup w =
              (Some (Error (''Failed to write to image store: '' @ err_Error e)), w1)
            \<and> tree w1 = tree w"
    if "os_Open sys w tar = Inr f" "file_Stat sys w f = Inr n"
      "WriteImage sys w (Host ic) img f = (Some e, w1)"
    using that dest frame [of w "Host ic" img f] unfolding tar by (simp add: WriteImageBlob_def)
  have d: "WriteImageBlob sys url_Parse ic img cleanup w = (None, w1) \<and> tree w1 = tree w"
    if "os_Open sys w tar = Inr f" "file_Stat sys w f = Inr n"
      "WriteImage sys w (Host ic) img f = (None, w1)" "\<not> cleanup"
    using that dest frame [of w "Host ic" img f] unfolding tar by (simp add: WriteImageBlob_def)
  have r: "WriteImageBlob sys url_Parse ic img cleanup w =
              (case os_RemoveAll sys w1 destination of
                 (Some err, w2) \<Rightarrow>
                   (Some (Error (''Failed to remove download directory: '' @ err_Error err)), w2)
               | (None, w2) \<Rightarrow> (None, w2))"
    if "os_Open sys w tar = Inr f" "file_Stat sys w f = Inr n"
      "WriteImage sys w (Host ic) img f = (None, w1)" "cleanup"
    using that dest unfolding tar by (simp add: WriteImageBlob_def)
  have e: "cleanup \<and>
            (\<exists>f n w1. os_Open sys w tar = Inr f \<and> file_Stat sys w f = Inr n
               \<and> WriteImage sys w (Host ic) img f = (None, w1)
               \<and> snd (WriteImageBlob sys url_Parse ic img cleanup w) =
                   snd (os_RemoveAll sys w1 destination))"
    if changed: "tree (snd (WriteImageBlob sys url_Parse ic img cleanup w)) \<noteq> tree w"
  proof (cases "os_Open sys w tar")
    case (Inl e')
    with changed dest show ?thesis unfolding tar by (simp add: WriteImageBlob_def)
  next
    case (Inr f')
    show ?thesis
    proof (cases "file_Stat sys w f'")
      case (Inl e')
      with changed dest Inr show ?thesis unfolding tar by (simp add: WriteImageBlob_def)
    next
      case st: (Inr n')
      obtain r w' where wr: "WriteImage sys w (Host ic) img f' = (r, w')"
        by (cases "WriteImage sys w (Host ic) img f'")
      have fr: "tree w' = tree w" using frame [of w "Host ic" img f'] wr by simp
      show ?thesis
      proof (cases r)
        case (Some e')
        with changed dest Inr st wr fr show ?thesis unfolding tar by (simp add: WriteImageBlob_def)
      next
        case None
        show ?thesis
        proof (cases cleanup)
          case False
          with changed dest Inr st wr fr None show ?thesis
            unfolding tar by (simp add: WriteImageBlob_def)
        next
          case True
          have "snd (WriteImageBlob sys url_Parse ic img cleanup w) =
              snd (os_RemoveAll sys w' destination)"
            using dest Inr st wr None True unfolding tar
            by (simp add: WriteImageBlob_def split: prod.splits option.splits)
          with True Inr st wr None show ?thesis unfolding tar by auto
        qed
      qed
    qed
  qed
  from a b c d r e show ?thesis by blast
qed

lemma example_frame: "files (snd (WriteImage example_system w host i f)) = files w"
  by (simp add: example_system_def)

lemma example_tar:
  "''images/https/r.io/v2/busybox/latest/top/top.tar'' =
     path_Join [''images/https/r.io/v2/busybox/latest'', ID fresh_top, ID fresh_top @ ''.tar'']"
  by (simp add: path_Join_def path_Clean_def fresh_top_def)

text \<open>
  The witness: a missing tar file; an empty tar file, which the store rejects, with the
  file still there afterwards; a write without cleanup; and a write with cleanup, after
  which the tar file is gone.
\<close>

theorem WriteImageBlob_cleanup_witness:
  "WriteImageBlob example_system example_url_Parse
      (options_for ''https://r.io/v2'' ''busybox'' ''latest'') fresh_top True
      \<lparr>files = Map.empty, stored = []\<rparr>
     = (Some (Error ''Failed to open file: no such file or directory''),
        \<lparr>files = Map.empty, stored = []\<rparr>)
   \<and> WriteImageBlob example_system example_url_Parse
      (options_for ''https://r.io/v2'' ''busybox'' ''latest'') fresh_top True (downloaded [])
     = (Some (Error ''Failed to write to image store: unexpected EOF''), downloaded [])
   \<and> WriteImageBlob example_system example_url_Parse
      (options_for ''https://r.io/v2'' ''busybox'' ''latest'') fresh_top False (downloaded ''layer'')
     = (None, (downloaded ''layer'')\<lparr>stored := [''top'']\<rparr>)
   \<and> fst (WriteImageBlob example_system example_url_Parse
      (options_for ''https://r.io/v2'' ''busybox'' ''latest'') fresh_top True (downloaded ''layer''))
     = None
   \<and> files (snd (WriteImageBlob example_system example_url_Parse
      (options_for ''https://r.io/v2'' ''busybox'' ''latest'') fresh_top True (downloaded ''layer'')))
       ''images/https/r.io/v2/busybox/latest/top/top.tar'' = None
   \<and> files (downloaded ''layer'') ''images/https/r.io/v2/busybox/latest/top/top.tar''
     = Some ''layer''"
proof -
  let ?ic = "options_for ''https://r.io/v2'' ''busybox'' ''latest''"
  let ?tar = "''images/https/r.io/v2/busybox/latest/top/top.tar''"
  note t = WriteImageBlob_cleanup [of example_url_Parse ?ic "''images/https/r.io/v2/busybox/latest''"
      ?tar fresh_top files example_system, OF dest_v2 example_tar example_frame]
  have o1: "os_Open example_system \<lparr>files = Map.empty, stored = []\<rparr> ?tar
      = Inl (Error ''no such file or directory'')"
    by (simp add: example_system_def)
  have o2: "os_Open example_system (downloaded tar) ?tar = Inr tar" for tar
    by (simp add: example_system_def downloaded_def)
  have st: "file_Stat example_system (downloaded tar) tar = Inr (int (length tar))" for tar
    by (simp add: example_system_def)
  have w1: "WriteImage example_system (downloaded []) (Host ?ic) fresh_top []
      = (Some (Error ''unexpected EOF''), downloaded [])"
    by (simp add: example_system_def)
  have w2: "WriteImage example_system (downloaded ''layer'') (Host ?ic) fresh_top ''layer''
      = (None, (downloaded ''layer'')\<lparr>stored := [''top'']\<rparr>)"
    by (simp add: example_system_def downloaded_def fresh_top_def)
  have a: "WriteImageBlob example_system example_url_Parse ?ic fresh_top True
      \<lparr>files = Map.empty, stored = []\<rparr>
     = (Some (Error (''Failed to open file: '' @ err_Error (Error ''no such file or directory''))),
        \<lparr>files = Map.empty, stored = []\<rparr>)"
    using t [of "\<lparr>files = Map.empty, stored = []\<rparr>" "Error ''no such file or directory''"] o1
    by blast
  have b: "WriteImageBlob example_system example_url_Parse ?ic fresh_top True (downloaded [])
     = (Some (Error (''Failed to write to image store: '' @ err_Error (Error ''unexpected EOF''))),
        downloaded [])"
    using t [of "downloaded []" "Error ''unexpected EOF''" True "[]" 0 "downloaded []"] o2 [of "[]"] st [of "[]"] w1
    by simp
  have c: "WriteImageBlob example_system example_url_Parse ?ic fresh_top False (downloaded ''layer'')
     = (None, (downloaded ''layer'')\<lparr>stored := [''top'']\<rparr>)"
    using t [of "downloaded ''layer''" _ False "''layer''" 5 "(downloaded ''layer'')\<lparr>stored := [''top'']\<rparr>"]
      o2 [of "''layer''"] st [of "''layer''"] w2
    by simp
  have d: "WriteImageBlob example_system example_url_Parse ?ic fresh_top True (downloaded ''layer'')
     = (case os_RemoveAll example_system ((downloaded ''layer'')\<lparr>stored := [''top'']\<rparr>)
               ''images/https/r.io/v2/busybox/latest'' of
          (Some err, w2) \<Rightarrow>
            (Some (Error (''Failed to remove download directory: '' @ err_Error err)), w2)
        | (None, w2) \<Rightarrow> (None, w2))"
    using t [of "downloaded ''layer''" _ True "''layer''" 5 "(downloaded ''layer'')\<lparr>stored := [''top'']\<rparr>"]
      o2 [of "''layer''"] st [of "''layer''"] w2
    by simp
  have e: "fst (WriteImageBlob example_system example_url_Parse ?ic fresh_top True (downloaded ''layer''))
       = None
     \<and> files (snd (WriteImageBlob example_system example_url_Parse ?ic fresh_top True
         (downloaded ''layer''))) ?tar = None"
    unfolding d by (simp add: example_system_def)
  have g: "files (downloaded ''layer'') ?tar = Some ''layer''"
    by (simp add: downloaded_def)
  from a b c e g show ?thesis by simp
qed

end
